theory Spec2Isabelle
  imports Complex_Main "HOL-Library.Multiset"
begin

section \<open>Kline pages of the exchange (data\_downloader.py)\<close>

text \<open>
  Instants are integers, milliseconds: the exchange sends its timestamps so, and
  \<open>pd.to_datetime(..., unit='ms')\<close> makes them the index without loss. A datetime that a
  caller passes is read at the same resolution, as the number of milliseconds its naive
  reading makes. One row of \<open>data['result']['list']\<close> is a \<open>kline\<close> (its strings already
  read as numbers); one row of the frame a page fetcher returns is a \<open>candle\<close>, whose
  fields are the columns \<open>{col_name}_open\<close>, ..., \<open>{col_name}_turnover\<close> and whose
  \<open>c_time\<close> is the index.
\<close>

record kline =
  k_timestamp :: int
  k_open :: real
  k_high :: real
  k_low :: real
  k_close :: real
  k_volume :: real
  k_turnover :: real

record candle =
  c_time :: int
  c_open :: real
  c_high :: real
  c_low :: real
  c_close :: real
  c_volume :: real
  c_turnover :: real

text \<open>
  What one HTTP request ends in: an exception of \<open>requests.get\<close>, of
  \<open>raise_for_status\<close> or of the decoding of the payload, or a decoded payload with its
  \<open>retCode\<close> and its \<open>result.list\<close>.
\<close>

datatype 'a http_response =
    ConnectionFailed
  | HTTPFailure
  | MalformedPayload
  | Json int "'a list"

text \<open>
  The exchange is the environment: the answer to the \<open>n\<close>-th request of a walk, given the
  \<open>start\<close> and \<open>end\<close> parameters of that request.
\<close>

type_synonym exchange = "nat \<Rightarrow> int \<Rightarrow> int \<Rightarrow> kline http_response"

text \<open>
  What the libraries and the process give, none of it code of the repository:
  \<^item> \<open>sort_index\<close> is \<open>DataFrame.sort_index()\<close>; its default quicksort is not stable, so it
    is any function that returns its rows in the order of their index;
  \<^item> \<open>datetime_ms\<close> is \<open>int(dt.timestamp() * 1000)\<close> on a naive \<open>datetime\<close>: the datetime
    read in the local time zone, as a float of seconds, times 1000, truncated;
  \<^item> \<open>timestamp_ms\<close> is \<open>int(ts.timestamp() * 1000)\<close> on a pandas \<open>Timestamp\<close>: the same
    float product, the naive timestamp read as UTC (\<open>int(1.001 * 1000)\<close> is 1000);
  \<^item> \<open>now\<close> is \<open>datetime.now()\<close>.
\<close>

record env =
  sort_index :: "candle list \<Rightarrow> candle list"
  datetime_ms :: "int \<Rightarrow> int"
  timestamp_ms :: "int \<Rightarrow> int"
  now :: int

definition sorts_by_index :: "(candle list \<Rightarrow> candle list) \<Rightarrow> bool" where
  "sorts_by_index srt \<longleftrightarrow> (\<forall>rows. sorted (map c_time (srt rows)) \<and> mset (srt rows) = mset rows)"

definition token_row :: "kline \<Rightarrow> candle" where
  "token_row k =
     \<lparr> c_time = k_timestamp k,
       c_open = k_open k,
       c_high = k_open k,
       c_low = k_open k,
       c_close = k_close k,
       c_volume = k_volume k,
       c_turnover = k_turnover k \<rparr>"

definition get_spot_prices_bybit :: "env \<Rightarrow> kline http_response \<Rightarrow> candle list" where
  "get_spot_prices_bybit E response =
     (case response of
        Json retCode klines \<Rightarrow>
          if retCode = 0
          then (if klines = [] then [] else sort_index E (map token_row klines))
          else []
      | _ \<Rightarrow> [])"

definition get_future_price_bybit :: "env \<Rightarrow> kline http_response \<Rightarrow> candle list" where
  "get_future_price_bybit E response =
     (case response of
        Json retCode klines \<Rightarrow>
          if retCode = 0
          then (if klines = [] then [] else sort_index E (map token_row klines))
          else []
      | _ \<Rightarrow> [])"

section \<open>The backward walk and the merge\<close>

text \<open>
  The errors a call can end in. \<open>ValueError\<close>, \<open>KeyError\<close> and \<open>ZeroDivisionError\<close> are
  the Python exceptions the modelled statements raise; \<open>FetchError\<close> and
  \<open>NonConvergenceError\<close> are the names of the specification's taxonomy, and no statement
  of the source raises them.
\<close>

datatype error = ValueError | KeyError | ZeroDivisionError | FetchError | NonConvergenceError

datatype time_arg = Datetime int | PyNone | NotDatetime

text \<open>
  The \<open>while True\<close> loop of \<open>get_spot_data_bybit_full_period\<close>. The frame is filtered
  against the datetime \<open>start_time\<close>; the test that ends the walk compares
  \<open>int(df.index[0].timestamp() * 1000)\<close> with \<open>start_ms\<close>. Every iteration that goes on
  has appended one frame, so the number of the request is \<open>length all_dfs\<close>.
\<close>

function spot_loop ::
  "env \<Rightarrow> exchange \<Rightarrow> int \<Rightarrow> int \<Rightarrow> candle list list \<Rightarrow> int \<Rightarrow> candle list list" where
  "spot_loop E fetch start_time start_ms all_dfs current_end =
     (let df = get_spot_prices_bybit E (fetch (length all_dfs) start_ms current_end) in
      if df = [] then all_dfs
      else
        let df = filter (\<lambda>r. c_time r \<ge> start_time) df in
        if df = [] then all_dfs
        else
          let all_dfs = all_dfs @ [df];
              earliest_timestamp_ms = timestamp_ms E (c_time (hd df))
          in
            if earliest_timestamp_ms \<le> start_ms then all_dfs
            else if length all_dfs > 10000 then all_dfs
            else spot_loop E fetch start_time start_ms all_dfs (earliest_timestamp_ms - 1))"
  by pat_completeness auto
termination
  by (relation "measure (\<lambda>(E, fetch, start_time, start_ms, all_dfs, current_end).
                    10001 - length all_dfs)")
     auto

declare spot_loop.simps [simp del]

function future_loop ::
  "env \<Rightarrow> exchange \<Rightarrow> int \<Rightarrow> int \<Rightarrow> candle list list \<Rightarrow> int \<Rightarrow> candle list list" where
  "future_loop E fetch start_time start_ms all_dfs current_end =
     (let df = get_future_price_bybit E (fetch (length all_dfs) start_ms current_end) in
      if df = [] then all_dfs
      else
        let df = filter (\<lambda>r. c_time r \<ge> start_time) df in
        if df = [] then all_dfs
        else
          let all_dfs = all_dfs @ [df];
              earliest_timestamp_ms = timestamp_ms E (c_time (hd df))
          in
            if earliest_timestamp_ms \<le> start_ms then all_dfs
            else if length all_dfs > 10000 then all_dfs
            else future_loop E fetch start_time start_ms all_dfs (earliest_timestamp_ms - 1))"
  by pat_completeness auto
termination
  by (relation "measure (\<lambda>(E, fetch, start_time, start_ms, all_dfs, current_end).
                    10001 - length all_dfs)")
     auto

declare future_loop.simps [simp del]

text \<open>
  \<open>index.duplicated(keep='first')\<close> and \<open>drop_duplicates\<close>: a row is a duplicate when its
  key (the index, a column, the value) has been seen in an earlier row; the rows that are
  no duplicates are kept, in their order.
\<close>

fun drop_duplicated :: "('a \<Rightarrow> 'k) \<Rightarrow> 'k list \<Rightarrow> 'a list \<Rightarrow> 'a list" where
  "drop_duplicated key seen [] = []"
| "drop_duplicated key seen (r # rs) =
     (if key r \<in> set seen then drop_duplicated key seen rs
      else r # drop_duplicated key (key r # seen) rs)"

text \<open>
  The tail of both full-period functions: concatenate, sort by index, drop the rows whose
  index is a duplicate, keep the rows of the requested range; an empty frame when no page
  was kept.
\<close>

definition merge_frames ::
  "(candle list \<Rightarrow> candle list) \<Rightarrow> int \<Rightarrow> int \<Rightarrow> candle list list \<Rightarrow> candle list" where
  "merge_frames srt start_time end_time all_dfs =
     (if all_dfs \<noteq> []
      then
        let full_df = srt (concat all_dfs);
            full_df = drop_duplicated c_time [] full_df
        in filter (\<lambda>r. c_time r \<ge> start_time \<and> c_time r \<le> end_time) full_df
      else [])"

text \<open>
  The start must be a datetime, the end a datetime or \<open>None\<close> (then it is now); both are
  turned into milliseconds for the requests and the walk, and stay datetimes for the
  filters.
\<close>

definition get_spot_data_bybit_full_period ::
  "env \<Rightarrow> exchange \<Rightarrow> time_arg \<Rightarrow> time_arg \<Rightarrow> error + candle list" where
  "get_spot_data_bybit_full_period E fetch start_time end_time =
     (case start_time of
        Datetime start \<Rightarrow>
          (case (case end_time of
                   PyNone \<Rightarrow> Inr (now E)
                 | Datetime end \<Rightarrow> Inr end
                 | NotDatetime \<Rightarrow> Inl ValueError) of
             Inl e \<Rightarrow> Inl e
           | Inr end \<Rightarrow>
               let start_ms = datetime_ms E start;
                   end_ms = datetime_ms E end;
                   all_dfs = spot_loop E fetch start start_ms [] end_ms
               in Inr (merge_frames (sort_index E) start end all_dfs))
      | _ \<Rightarrow> Inl ValueError)"

definition get_future_data_bybit_full_period ::
  "env \<Rightarrow> exchange \<Rightarrow> time_arg \<Rightarrow> time_arg \<Rightarrow> error + candle list" where
  "get_future_data_bybit_full_period E fetch start_time end_time =
     (case start_time of
        Datetime start \<Rightarrow>
          (case (case end_time of
                   PyNone \<Rightarrow> Inr (now E)
                 | Datetime end \<Rightarrow> Inr end
                 | NotDatetime \<Rightarrow> Inl ValueError) of
             Inl e \<Rightarrow> Inl e
           | Inr end \<Rightarrow>
               let start_ms = datetime_ms E start;
                   end_ms = datetime_ms E end;
                   all_dfs = future_loop E fetch start start_ms [] end_ms
               in Inr (merge_frames (sort_index E) start end all_dfs))
      | _ \<Rightarrow> Inl ValueError)"

section \<open>Funding rates and the hourly grid\<close>

record funding_rec =
  f_symbol :: string
  fundingRate :: real
  fundingRateTimestamp :: int

text \<open>
  The funding exchange answers the \<open>n\<close>-th request of the walk for a symbol, given the
  \<open>endTime\<close> parameter; \<open>get_funding_rates\<close> leaves the parameter out when \<open>end_time\<close> is
  falsy.
\<close>

type_synonym funding_exchange = "string \<Rightarrow> nat \<Rightarrow> int option \<Rightarrow> funding_rec http_response"

definition get_funding_rates :: "funding_rec http_response \<Rightarrow> funding_rec list option" where
  "get_funding_rates response =
     (case response of
        Json retCode rates \<Rightarrow> if retCode = 0 then Some rates else None
      | _ \<Rightarrow> None)"

text \<open>
  The \<open>while True\<close> loop of \<open>get_funding_bybit\<close>. It has no bound on its iterations, so it
  is a partial function: \<open>None\<close> is the loop that never ends.
\<close>

partial_function (option) funding_loop ::
  "funding_exchange \<Rightarrow> string \<Rightarrow> int \<Rightarrow> nat \<Rightarrow> funding_rec list \<Rightarrow> int \<Rightarrow> funding_rec list option" where
  "funding_loop fetch symbol start_time n all_rates current_end =
     (case get_funding_rates (fetch symbol n (if current_end = 0 then None else Some current_end)) of
        None \<Rightarrow> Some all_rates
      | Some rates \<Rightarrow>
          if rates = [] then Some all_rates
          else
            let filtered = filter (\<lambda>r. fundingRateTimestamp r \<ge> start_time) rates;
                all_rates = all_rates @ filtered;
                oldest_time = min_list (map fundingRateTimestamp rates)
            in
              if oldest_time \<le> start_time then Some all_rates
              else funding_loop fetch symbol start_time (Suc n) all_rates (oldest_time - 1))"

text \<open>
  The frame of one symbol: the rows with a first-seen \<open>fundingTime\<close>, sorted by it, within
  the requested dates. The times are distinct when the frame is sorted, so every sort
  gives the same frame.
\<close>

definition funding_frame :: "int \<Rightarrow> int \<Rightarrow> funding_rec list \<Rightarrow> funding_rec list" where
  "funding_frame start_date end_date all_rates =
     (let df = drop_duplicated fundingRateTimestamp [] all_rates;
          df = sort_key fundingRateTimestamp df
      in filter (\<lambda>r. fundingRateTimestamp r \<ge> start_date \<and> fundingRateTimestamp r \<le> end_date) df)"

text \<open>
  The \<open>for symbol in symbols\<close> loop; \<open>results\<close> is the dictionary, its latest entry first.
  The walk runs on \<open>start_time\<close> and \<open>end_time\<close>, the dates as
  \<open>int(pd.to_datetime(date).timestamp() * 1000)\<close>; the frame is cut to the dates themselves.
\<close>

fun load_symbols ::
  "env \<Rightarrow> funding_exchange \<Rightarrow> string list \<Rightarrow> int \<Rightarrow> int \<Rightarrow> (string \<times> funding_rec list) list
     \<Rightarrow> (string \<times> funding_rec list) list option" where
  "load_symbols E fetch [] start_date end_date results = Some results"
| "load_symbols E fetch (symbol # symbols) start_date end_date results =
     (let start_time = timestamp_ms E start_date;
          end_time = timestamp_ms E end_date
      in case funding_loop fetch symbol start_time 0 [] end_time of
        None \<Rightarrow> None
      | Some all_rates \<Rightarrow>
          if all_rates = [] then load_symbols E fetch symbols start_date end_date results
          else load_symbols E fetch symbols start_date end_date
                 ((symbol, funding_frame start_date end_date all_rates) # results))"

definition hour_ms :: int where
  "hour_ms = 3600000"

definition floor_H :: "int \<Rightarrow> int" where
  "floor_H t = (t div hour_ms) * hour_ms"

definition ceil_H :: "int \<Rightarrow> int" where
  "ceil_H t = - ((- t) div hour_ms) * hour_ms"

text \<open>\<open>pd.date_range(start, end, freq='H')\<close>: \<open>start\<close>, \<open>start + 1h\<close>, ... up to \<open>end\<close>.\<close>

definition date_range_H :: "int \<Rightarrow> int \<Rightarrow> int list" where
  "date_range_H start end =
     map (\<lambda>k. start + int k * hour_ms) [0 ..< nat ((end - start) div hour_ms + 1)]"

text \<open>
  The grid (the last part of \<open>get_funding_bybit\<close>): the series of the funding rates indexed
  by their time, its duplicate values dropped, reindexed on the hourly range (\<open>None\<close> is
  the NaN of a missing label), and the NaN filled with \<open>0.0\<close>.
\<close>

definition hourly_grid :: "funding_rec list \<Rightarrow> int \<Rightarrow> int \<Rightarrow> (int \<times> real) list" where
  "hourly_grid df_fund start_dt end_dt =
     (let full_hourly_range = date_range_H (floor_H start_dt) (ceil_H end_dt);
          fund_series = drop_duplicated snd []
                          (map (\<lambda>r. (fundingRateTimestamp r, fundingRate r)) df_fund);
          reindexed = map (\<lambda>h. (h, map_of fund_series h)) full_hourly_range
      in map (\<lambda>(h, v). (h, case v of None \<Rightarrow> 0 | Some x \<Rightarrow> x)) reindexed)"

definition get_funding_bybit ::
  "env \<Rightarrow> funding_exchange \<Rightarrow> string list \<Rightarrow> int \<Rightarrow> int \<Rightarrow> (error + (int \<times> real) list) option" where
  "get_funding_bybit E fetch symbols start_date end_date =
     (case load_symbols E fetch symbols start_date end_date [] of
        None \<Rightarrow> None
      | Some results \<Rightarrow>
          if results = [] then Some (Inr [])
          else
            (case map_of results (hd symbols) of
               None \<Rightarrow> Some (Inl KeyError)
             | Some df_fund \<Rightarrow> Some (Inr (hourly_grid df_fund start_date end_date))))"

text \<open>The row count the specification gives for the grid: \<open>ceil((end - start) / 1 hour) + 1\<close>.\<close>

definition spec_grid_rows :: "int \<Rightarrow> int \<Rightarrow> nat" where
  "spec_grid_rows start end = nat \<lceil>real_of_int (end - start) / real_of_int hour_ms\<rceil> + 1"

section \<open>Performance statistics (backtesters.py)\<close>

subsection \<open>Numpy scalars\<close>

text \<open>
  A numpy scalar is a finite double or one of the special values. The special values
  arise as numpy makes them, from a division by zero and from empty data; overflow to an
  infinity and the sign of zero are left out.
\<close>

datatype float64 = Finite real | PosInf | NegInf | NaN

definition inf_of_sign :: "real \<Rightarrow> float64" where
  "inf_of_sign s = (if s > 0 then PosInf else if s < 0 then NegInf else NaN)"

fun fsgn :: "float64 \<Rightarrow> real" where
  "fsgn (Finite a) = sgn a"
| "fsgn PosInf = 1"
| "fsgn NegInf = - 1"
| "fsgn NaN = 0"

fun fneg :: "float64 \<Rightarrow> float64" where
  "fneg (Finite a) = Finite (- a)"
| "fneg PosInf = NegInf"
| "fneg NegInf = PosInf"
| "fneg NaN = NaN"

fun fabs :: "float64 \<Rightarrow> float64" where
  "fabs (Finite a) = Finite \<bar>a\<bar>"
| "fabs PosInf = PosInf"
| "fabs NegInf = PosInf"
| "fabs NaN = NaN"

fun fadd :: "float64 \<Rightarrow> float64 \<Rightarrow> float64" where
  "fadd NaN b = NaN"
| "fadd a NaN = NaN"
| "fadd (Finite a) (Finite b) = Finite (a + b)"
| "fadd PosInf NegInf = NaN"
| "fadd NegInf PosInf = NaN"
| "fadd PosInf b = PosInf"
| "fadd a PosInf = PosInf"
| "fadd NegInf b = NegInf"
| "fadd a NegInf = NegInf"

definition fsub :: "float64 \<Rightarrow> float64 \<Rightarrow> float64" where
  "fsub a b = fadd a (fneg b)"

fun fmul :: "float64 \<Rightarrow> float64 \<Rightarrow> float64" where
  "fmul NaN b = NaN"
| "fmul a NaN = NaN"
| "fmul (Finite a) (Finite b) = Finite (a * b)"
| "fmul a b = inf_of_sign (fsgn a * fsgn b)"

text \<open>
  The exact quotient of numpy scalars: a zero divisor gives an infinity or NaN, no
  exception.
\<close>

fun fdiv :: "float64 \<Rightarrow> float64 \<Rightarrow> float64" where
  "fdiv NaN b = NaN"
| "fdiv a NaN = NaN"
| "fdiv (Finite a) (Finite b) = (if b = 0 then inf_of_sign (sgn a) else Finite (a / b))"
| "fdiv (Finite a) b = Finite 0"
| "fdiv a (Finite b) = inf_of_sign (fsgn a * (if b < 0 then - 1 else 1))"
| "fdiv a b = NaN"

text \<open>\<open>a > b\<close>: false whenever an operand is NaN.\<close>

fun fgt :: "float64 \<Rightarrow> float64 \<Rightarrow> bool" where
  "fgt NaN b = False"
| "fgt a NaN = False"
| "fgt (Finite a) (Finite b) = (a > b)"
| "fgt PosInf b = (b \<noteq> PosInf)"
| "fgt a NegInf = (a \<noteq> NegInf)"
| "fgt a b = False"

subsection \<open>Floating-point arithmetic\<close>

text \<open>
  The arithmetic of doubles, none of it code of the repository:
  \<^item> \<open>rnd\<close> rounds an exact result to a double; every operation of numpy and of Python
    (\<open>+\<close>, \<open>-\<close>, \<open>*\<close>, \<open>/\<close>, the square root, the reading of a literal) returns the rounding
    of its exact result;
  \<^item> \<open>np_sum\<close> is the sum of an array, in whatever order of additions the reduction of the
    library takes.
  The statistics below are functions of this arithmetic; what is proved of them for every
  \<open>float_ops\<close> holds of the doubles.
\<close>

record float_ops =
  rnd :: "real \<Rightarrow> real"
  np_sum :: "real list \<Rightarrow> real"

text \<open>The rounding of a finite result; the special values stay.\<close>

fun fround :: "float_ops \<Rightarrow> float64 \<Rightarrow> float64" where
  "fround P (Finite a) = Finite (rnd P a)"
| "fround P PosInf = PosInf"
| "fround P NegInf = NegInf"
| "fround P NaN = NaN"

subsection \<open>The statistics\<close>

definition days_in_year :: real where
  "days_in_year = 365.25"

text \<open>\<open>np.mean\<close> of a series that is not empty: the sum, divided by the count.\<close>

definition np_mean :: "float_ops \<Rightarrow> real list \<Rightarrow> real" where
  "np_mean P xs = rnd P (np_sum P xs / real (length xs))"

text \<open>
  \<open>np.std\<close> (\<open>ddof=0\<close>) of a series that is not empty: the mean, the squares of the
  differences to it, their sum divided by the count, the square root (the sum of the
  squares is not negative).
\<close>

definition np_std :: "float_ops \<Rightarrow> real list \<Rightarrow> real" where
  "np_std P xs =
     (let avg = np_mean P xs;
          sqr = map (\<lambda>x. rnd P ((rnd P (avg - x))\<^sup>2)) xs
      in rnd P (sqrt (rnd P (np_sum P sqr / real (length xs)))))"

definition Return :: "float_ops \<Rightarrow> real list \<Rightarrow> float64" where
  "Return P rets = (if rets = [] then NaN else Finite (rnd P (np_mean P rets * days_in_year)))"

definition Volatility :: "float_ops \<Rightarrow> real list \<Rightarrow> float64" where
  "Volatility P rets =
     (if rets = [] then NaN else Finite (rnd P (np_std P rets * rnd P (sqrt days_in_year))))"

definition SharpeRatio :: "float_ops \<Rightarrow> real list \<Rightarrow> float64" where
  "SharpeRatio P rets =
     (let volatility = Volatility P rets in fround P (fdiv (Return P rets) volatility))"

text \<open>\<open>cumprod\<close>: the first value, then each product of the last result and the next value.\<close>

fun cumprod_from :: "float_ops \<Rightarrow> real \<Rightarrow> real list \<Rightarrow> real list" where
  "cumprod_from P acc [] = []"
| "cumprod_from P acc (x # xs) = rnd P (acc * x) # cumprod_from P (rnd P (acc * x)) xs"

fun cumprod :: "float_ops \<Rightarrow> real list \<Rightarrow> real list" where
  "cumprod P [] = []"
| "cumprod P (x # xs) = x # cumprod_from P x xs"

fun cummax_from :: "real \<Rightarrow> real list \<Rightarrow> real list" where
  "cummax_from m [] = []"
| "cummax_from m (x # xs) = max m x # cummax_from (max m x) xs"

fun cummax :: "real list \<Rightarrow> real list" where
  "cummax [] = []"
| "cummax (x # xs) = x # cummax_from x xs"

text \<open>\<open>Series.min()\<close>: the least value that is not NaN, NaN when there is none.\<close>

definition fmin :: "float64 \<Rightarrow> float64 \<Rightarrow> float64" where
  "fmin a b = (if fgt a b then b else a)"

definition series_min :: "float64 list \<Rightarrow> float64" where
  "series_min xs =
     (case filter (\<lambda>x. x \<noteq> NaN) xs of
        [] \<Rightarrow> NaN
      | y # ys \<Rightarrow> fold fmin ys y)"

definition MaxDrawdown :: "float_ops \<Rightarrow> real list \<Rightarrow> float64" where
  "MaxDrawdown P rets =
     (let wealth_index = cumprod P (map (\<lambda>r. rnd P (1 + r)) rets);
          rolling_max = cummax wealth_index;
          drawdowns = map (\<lambda>(w, m). fround P (fdiv (Finite (rnd P (w - m))) (Finite m)))
                          (zip wealth_index rolling_max)
      in series_min drawdowns)"

text \<open>The threshold is the double that the literal \<open>1e-8\<close> reads as.\<close>

definition CalmarRatio :: "float_ops \<Rightarrow> real list \<Rightarrow> float64" where
  "CalmarRatio P rets =
     (let mdd = MaxDrawdown P rets in
      if fgt (fabs mdd) (Finite (rnd P (1 / 10 ^ 8)))
      then fround P (fdiv (Return P rets) (fabs mdd))
      else NaN)"

definition downside_vol :: "float_ops \<Rightarrow> real list \<Rightarrow> real" where
  "downside_vol P rets =
     (let target = 0;
          downside = filter (\<lambda>r. r < target) rets
      in if length downside = 0 then 0
         else rnd P (np_std P downside * rnd P (sqrt days_in_year)))"

definition SortinoRatio :: "float_ops \<Rightarrow> real list \<Rightarrow> float64" where
  "SortinoRatio P rets =
     (if downside_vol P rets > rnd P (1 / 10 ^ 8)
      then fround P (fdiv (Return P rets) (Finite (downside_vol P rets)))
      else NaN)"

subsection \<open>The probabilistic and the deflated Sharpe ratio\<close>

text \<open>
  The two ratios are kept in exact arithmetic: their finite numbers are exact reals, and
  rounding is left out.

  \<open>scipy.stats.skew\<close> and \<open>kurtosis\<close> with their defaults (biased, Fisher), from the
  central moments: NaN on empty and on constant data.
\<close>

definition arith_mean :: "real list \<Rightarrow> real" where
  "arith_mean xs = sum_list xs / real (length xs)"

definition moment :: "nat \<Rightarrow> real list \<Rightarrow> real" where
  "moment k xs = arith_mean (map (\<lambda>x. (x - arith_mean xs) ^ k) xs)"

definition skew :: "real list \<Rightarrow> float64" where
  "skew xs =
     (if xs = [] \<or> moment 2 xs = 0 then NaN
      else Finite (moment 3 xs / (moment 2 xs * sqrt (moment 2 xs))))"

definition kurtosis :: "real list \<Rightarrow> float64" where
  "kurtosis xs =
     (if xs = [] \<or> moment 2 xs = 0 then NaN
      else Finite (moment 4 xs / (moment 2 xs)\<^sup>2 - 3))"

text \<open>
  \<open>norm.cdf\<close> on a numpy scalar; the distribution function itself, \<open>cdf\<close>, is a parameter
  of the model.
\<close>

fun norm_cdf :: "(real \<Rightarrow> real) \<Rightarrow> float64 \<Rightarrow> float64" where
  "norm_cdf cdf (Finite z) = Finite (cdf z)"
| "norm_cdf cdf PosInf = Finite 1"
| "norm_cdf cdf NegInf = Finite 0"
| "norm_cdf cdf NaN = NaN"

text \<open>
  Whether \<open>sr_tested - sr_etalon\<close> is a Python float or a numpy scalar: Python's own
  division raises on a zero divisor, numpy's does not.
\<close>

datatype scalar_kind = PyFloat | NpFloat

text \<open>
  \<open>math.sqrt\<close> raises \<open>ValueError\<close> on a negative argument and returns NaN on NaN. The
  statistic is evaluated from left to right: the square root of \<open>len - 1\<close> first.
\<close>

definition prob_sharpe ::
  "(real \<Rightarrow> real) \<Rightarrow> scalar_kind \<Rightarrow> real list \<Rightarrow> real \<Rightarrow> float64 \<Rightarrow> error + float64" where
  "prob_sharpe cdf kind returns sr_tested sr_etalon =
     (let y3 = skew returns;
          y4 = fadd (kurtosis returns) (Finite 3)
      in
        if length returns = 0 then Inl ValueError
        else
          let numerator = fmul (fsub (Finite sr_tested) sr_etalon)
                               (Finite (sqrt (real (length returns) - 1)))
          in
            (case (y3, y4) of
               (Finite y3, Finite y4) \<Rightarrow>
                 let radicand = 1 - y3 * sr_tested + (y4 - 1) * sr_tested / 4 in
                 if radicand < 0 then Inl ValueError
                 else if radicand = 0 \<and> kind = PyFloat then Inl ZeroDivisionError
                 else Inr (norm_cdf cdf (fdiv numerator (Finite (sqrt radicand))))
             | _ \<Rightarrow> Inr NaN))"

text \<open>
  \<open>round((1.0 - math.gamma(1 + 1.0e-8)) * 1.0e14) * 1.0e-6\<close>: the rounding gives 577216.
\<close>

definition euler_mascheroni_y :: real where
  "euler_mascheroni_y = 577216 / 10 ^ 6"

text \<open>
  \<open>sharpes.std()\<close> with \<open>ddof\<close> delta degrees of freedom (0 for an array, 1 for a frame);
  NaN when a Sharpe ratio is not finite or too few are given.
\<close>

fun finite_part :: "float64 \<Rightarrow> real option" where
  "finite_part (Finite a) = Some a"
| "finite_part PosInf = None"
| "finite_part NegInf = None"
| "finite_part NaN = None"

definition sharpes_std :: "nat \<Rightarrow> float64 list \<Rightarrow> float64" where
  "sharpes_std ddof sharpes =
     (if list_ex (\<lambda>x. finite_part x = None) sharpes \<or> length sharpes \<le> ddof then NaN
      else
        let xs = map (\<lambda>x. case finite_part x of Some a \<Rightarrow> a | None \<Rightarrow> 0) sharpes in
        Finite (sqrt (sum_list (map (\<lambda>x. (x - arith_mean xs)\<^sup>2) xs) / real (length xs - ddof))))"

text \<open>
  \<open>bagging_strategies\<close> is the list of its columns, one return series for each strategy.
\<close>

definition sr_etalon_of :: "(real \<Rightarrow> real) \<Rightarrow> float64 \<Rightarrow> nat \<Rightarrow> float64" where
  "sr_etalon_of cdf sr_std N =
     (let y = euler_mascheroni_y in
      fmul sr_std
        (fadd (fdiv (Finite (1 - y)) (Finite (cdf (1 - 1 / real N))))
              (fdiv (Finite y) (Finite (cdf (1 - 1 / (real N * exp 1)))))))"

definition deflated_sharpe ::
  "float_ops \<Rightarrow> (real \<Rightarrow> real) \<Rightarrow> nat \<Rightarrow> real list \<Rightarrow> real list list \<Rightarrow> real
     \<Rightarrow> error + float64" where
  "deflated_sharpe P cdf ddof returns bagging_strategies sr_tested =
     (let sharpes = map (SharpeRatio P) bagging_strategies;
          N = length bagging_strategies;
          sr_std = sharpes_std ddof sharpes
      in
        if N = 0 then Inl ZeroDivisionError
        else prob_sharpe cdf NpFloat returns sr_tested (sr_etalon_of cdf sr_std N))"

text \<open>
  The statistic and the benchmark as the specification writes them: the kurtosis term times
  the square of the tested ratio, and the inverse distribution function \<open>quantile\<close>.
\<close>

definition spec_psr_radicand :: "real \<Rightarrow> real \<Rightarrow> real \<Rightarrow> real" where
  "spec_psr_radicand y3 excess_kurtosis sr_tested =
     1 - y3 * sr_tested + ((excess_kurtosis + 3 - 1) / 4) * sr_tested\<^sup>2"

definition spec_psr_z :: "real \<Rightarrow> real \<Rightarrow> nat \<Rightarrow> real \<Rightarrow> real \<Rightarrow> real" where
  "spec_psr_z y3 excess_kurtosis n sr_tested sr_benchmark =
     (sr_tested - sr_benchmark) * sqrt (real n - 1)
       / sqrt (spec_psr_radicand y3 excess_kurtosis sr_tested)"

definition spec_sr_benchmark :: "(real \<Rightarrow> real) \<Rightarrow> real \<Rightarrow> nat \<Rightarrow> real" where
  "spec_sr_benchmark quantile sr_std N =
     sr_std * ((1 - euler_mascheroni_y) * quantile (1 - 1 / real N)
               + euler_mascheroni_y * quantile (1 - 1 / (real N * exp 1)))"

section \<open>The arithmetic of binary64\<close>

text \<open>
  The rounding of IEEE 754 binary64: to the nearest number with 53 significant bits (or a
  multiple of \<open>2^-1074\<close> below \<open>2^-1022\<close>), a tie to the one with an even last bit. The
  binary exponent is found by a bounded search from \<open>-1022\<close> upwards.
\<close>

definition round_half_even :: "real \<Rightarrow> int" where
  "round_half_even x =
     (let f = \<lfloor>x\<rfloor>; d = x - of_int f
      in if d < 1 / 2 then f else if 1 / 2 < d then f + 1 else if even f then f else f + 1)"

fun bexp_from :: "nat \<Rightarrow> real \<Rightarrow> int \<Rightarrow> int" where
  "bexp_from 0 a e = e"
| "bexp_from (Suc n) a e = (if 2 powi (e + 1) \<le> a then bexp_from n a (e + 1) else e)"

definition bexp :: "real \<Rightarrow> int" where
  "bexp a = bexp_from 2046 a (- 1022)"

definition binary64 :: "real \<Rightarrow> real" where
  "binary64 x =
     (let q = 2 powi (bexp \<bar>x\<bar> - 52)
      in of_int (round_half_even (x / q)) * q)"

text \<open>
  The sum of an array of fewer than 8 doubles, as the reduction of numpy takes it: the
  first element, and each further one added in turn.
\<close>

fun seq_sum :: "(real \<Rightarrow> real) \<Rightarrow> real list \<Rightarrow> real" where
  "seq_sum r [] = 0"
| "seq_sum r (x # xs) = foldl (\<lambda>acc y. r (acc + y)) x xs"

definition binary64_ops :: float_ops where
  "binary64_ops = \<lparr> rnd = binary64, np_sum = seq_sum binary64 \<rparr>"

section \<open>Failed requests\<close>

text \<open>
  A request has failed when it ended in an exception or in a payload whose \<open>retCode\<close> is
  not 0. \<open>swallow\<close> is the exchange whose failed requests are replaced by empty pages.
\<close>

fun failed :: "'a http_response \<Rightarrow> bool" where
  "failed (Json retCode rows) = (retCode \<noteq> 0)"
| "failed ConnectionFailed = True"
| "failed HTTPFailure = True"
| "failed MalformedPayload = True"

definition swallow :: "exchange \<Rightarrow> exchange" where
  "swallow fetch n start end = (if failed (fetch n start end) then Json 0 [] else fetch n start end)"

section \<open>Sample data\<close>

text \<open>
  Concrete klines, rows and exchanges, for the instances of the theorems. The sample
  process runs in UTC and sorts stably; the instants of the samples that it converts are
  whole seconds, on which \<open>int(t.timestamp() * 1000)\<close> is exact.
\<close>

definition utc_env :: env where
  "utc_env = \<lparr> sort_index = sort_key c_time, datetime_ms = (\<lambda>t. t), timestamp_ms = (\<lambda>t. t),
               now = 0 \<rparr>"

definition sample_kline :: "int \<Rightarrow> kline" where
  "sample_kline t =
     \<lparr> k_timestamp = t, k_open = 100, k_high = 110, k_low = 90, k_close = 105,
       k_volume = 2, k_turnover = 200 \<rparr>"

definition sample_row :: "int \<Rightarrow> candle" where
  "sample_row t =
     \<lparr> c_time = t, c_open = 100, c_high = 100, c_low = 100, c_close = 105,
       c_volume = 2, c_turnover = 200 \<rparr>"

text \<open>An exchange that answers every request with one kline, a second after the start.\<close>

definition stuck_exchange :: exchange where
  "stuck_exchange n start end = Json 0 [sample_kline (start + 1000)]"

definition two_pages :: exchange where
  "two_pages n start end =
     (if n = 0 then Json 0 [sample_kline 3000, sample_kline 2000]
      else if n = 1 then Json 0 [sample_kline 2000, sample_kline 1000]
      else Json 0 [])"

text \<open>
  Two exchanges whose second request fails: by an HTTP error, and by a payload with the
  \<open>retCode\<close> 10001 (which the fetcher drops, rows and all).
\<close>

definition failing_second :: exchange where
  "failing_second n start end =
     (if n = 0 then Json 0 [sample_kline 3000, sample_kline 2000] else HTTPFailure)"

definition refused_second :: exchange where
  "refused_second n start end =
     (if n = 0 then Json 0 [sample_kline 3000, sample_kline 2000]
      else Json 10001 [sample_kline 1000])"

definition stuck_funding :: funding_exchange where
  "stuck_funding symbol n endTime =
     Json 0 [\<lparr> f_symbol = symbol, fundingRate = 1 / 10000, fundingRateTimestamp = 1 \<rparr>]"

definition sample_funding :: "int \<Rightarrow> funding_rec" where
  "sample_funding t = \<lparr> f_symbol = ''SOLUSDT'', fundingRate = 1 / 10000, fundingRateTimestamp = t \<rparr>"

definition one_funding :: funding_exchange where
  "one_funding symbol n endTime = (if n = 0 then Json 0 [sample_funding 3600000] else Json 0 [])"

definition sample_returns :: "real list" where
  "sample_returns = [- 1, 0, 0, 1]"

text \<open>
  A distribution function and a quantile function to instantiate the parameters with: the
  logistic distribution's, and that of the uniform distribution on [-1/2, 1/2].
\<close>

definition logistic :: "real \<Rightarrow> real" where
  "logistic x = 1 / (1 + exp (- x))"

definition uniform_quantile :: "real \<Rightarrow> real" where
  "uniform_quantile p = p - 1 / 2"


definition double_1e_8 :: real where
  "double_1e_8 = 6044629098073146 / 2 ^ 79"

definition boundary_returns :: "real list" where
  "boundary_returns = [283709 / 2 ^ 44, - (90071993 / 2 ^ 53)]"

section \<open>Properties of the merge\<close>

subsection \<open>Sorting\<close>

lemma sorts_by_index_sorted: "sorts_by_index srt \<Longrightarrow> sorted (map c_time (srt rows))"
  by (simp add: sorts_by_index_def)

lemma sorts_by_index_set: "sorts_by_index srt \<Longrightarrow> set (srt rows) = set rows"
  by (auto simp: sorts_by_index_def dest: mset_eq_setD)

lemma sorts_by_index_Nil: "sorts_by_index srt \<Longrightarrow> srt rows = [] \<longleftrightarrow> rows = []"
  using sorts_by_index_set [of srt rows] by (metis set_empty)

lemma sorts_by_index_sort_key: "sorts_by_index (sort_key c_time)"
  by (simp add: sorts_by_index_def)

lemma sorts_by_index_utc: "sorts_by_index (sort_index utc_env)"
  by (simp add: utc_env_def sorts_by_index_sort_key)

subsection \<open>Dropping duplicates\<close>

lemma drop_duplicated_subset: "set (drop_duplicated f seen rs) \<subseteq> set rs"
  by (induction rs arbitrary: seen) auto

lemma drop_duplicated_keys:
  "set (map f (drop_duplicated f seen rs)) = set (map f rs) - set seen"
  by (induction rs arbitrary: seen) auto

lemma drop_duplicated_unseen:
  "x \<in> set (drop_duplicated f seen rs) \<Longrightarrow> f x \<notin> set seen"
  by (induction rs arbitrary: seen) (force split: if_splits)+

lemma drop_duplicated_distinct: "distinct (map f (drop_duplicated f seen rs))"
  by (induction rs arbitrary: seen) (auto dest: drop_duplicated_unseen)

lemma drop_duplicated_sorted:
  fixes f :: "'a \<Rightarrow> 'k::linorder"
  shows "sorted (map f rs) \<Longrightarrow> sorted (map f (drop_duplicated f seen rs))"
proof (induction rs arbitrary: seen)
  case Nil
  then show ?case by simp
next
  case (Cons r rs)
  have "\<forall>x \<in> set (drop_duplicated f (f r # seen) rs). f r \<le> f x"
    using Cons.prems drop_duplicated_subset [of f "f r # seen" rs] by auto
  with Cons show ?case by auto
qed

subsection \<open>The merge\<close>

lemma merge_frames_strict:
  assumes "sorts_by_index srt"
  shows "sorted_wrt (<) (map c_time (merge_frames srt s e dfs))"
proof -
  let ?d = "drop_duplicated c_time [] (srt (concat dfs))"
  have "sorted (map c_time ?d)"
    by (rule drop_duplicated_sorted) (rule sorts_by_index_sorted [OF assms])
  moreover have "distinct (map c_time ?d)" by (rule drop_duplicated_distinct)
  ultimately have "sorted_wrt (<) (map c_time ?d)"
    by (simp add: strict_sorted_iff)
  then have "sorted_wrt (<) (map c_time (filter (\<lambda>r. c_time r \<ge> s \<and> c_time r \<le> e) ?d))"
    by (simp add: sorted_wrt_map sorted_wrt_filter)
  then show ?thesis by (simp add: merge_frames_def Let_def)
qed

lemma merge_frames_range:
  "r \<in> set (merge_frames srt s e dfs) \<Longrightarrow> s \<le> c_time r \<and> c_time r \<le> e"
  by (auto simp: merge_frames_def Let_def split: if_splits)

lemma merge_frames_subset:
  assumes "sorts_by_index srt"
  shows "set (merge_frames srt s e dfs) \<subseteq> \<Union> (set ` set dfs)"
  using drop_duplicated_subset [of c_time "[]" "srt (concat dfs)"]
    sorts_by_index_set [OF assms, of "concat dfs"]
  by (auto simp: merge_frames_def Let_def split: if_splits)

lemma dedup_sorted_same_rows:
  assumes "sorts_by_index srt" and "sorted_wrt (<) (map c_time T)" and "set X = set T"
  shows "drop_duplicated c_time [] (srt X) = T"
proof -
  let ?L = "drop_duplicated c_time [] (srt X)"
  from assms(2) have sT: "sorted (map c_time T)" and dT: "distinct (map c_time T)"
    by (simp_all add: strict_sorted_iff)
  have "sorted (map c_time ?L)"
    by (rule drop_duplicated_sorted) (rule sorts_by_index_sorted [OF assms(1)])
  moreover have "distinct (map c_time ?L)" by (rule drop_duplicated_distinct)
  moreover have "set (map c_time ?L) = set (map c_time T)"
    using sorts_by_index_set [OF assms(1), of X] assms(3)
    by (simp only: drop_duplicated_keys) simp
  ultimately have keys: "map c_time ?L = map c_time T"
    using sT dT by (intro sorted_distinct_set_unique) auto
  have "set ?L \<subseteq> set T"
    using drop_duplicated_subset [of c_time "[]" "srt X"]
      sorts_by_index_set [OF assms(1), of X] assms(3) by simp
  moreover from dT have "inj_on c_time (set T)" by (simp add: distinct_map)
  ultimately have "inj_on c_time (set ?L \<union> set T)"
    by (simp add: Un_absorb1)
  with keys show ?thesis by (simp add: inj_on_map_eq_map)
qed

text \<open>
  C7. Merging a table that is sorted with unique timestamps with itself gives what merging
  it alone gives, and gives the table itself when its rows lie in the requested range,
  whatever sort the library has.
\<close>

theorem merge_idempotent:
  assumes "sorts_by_index srt" and "sorted_wrt (<) (map c_time table)"
  shows "merge_frames srt start end [table, table] = merge_frames srt start end [table] \<and>
         ((\<forall>r \<in> set table. start \<le> c_time r \<and> c_time r \<le> end) \<longrightarrow>
            merge_frames srt start end [table, table] = table)"
proof -
  have "drop_duplicated c_time [] (srt (table @ table)) = table"
    by (rule dedup_sorted_same_rows [OF assms]) simp
  then have "merge_frames srt start end [table, table] =
          filter (\<lambda>r. c_time r \<ge> start \<and> c_time r \<le> end) table"
    by (simp add: merge_frames_def Let_def)
  moreover have "drop_duplicated c_time [] (srt table) = table"
    by (rule dedup_sorted_same_rows [OF assms]) simp
  then have "merge_frames srt start end [table] =
          filter (\<lambda>r. c_time r \<ge> start \<and> c_time r \<le> end) table"
    by (simp add: merge_frames_def Let_def)
  ultimately show ?thesis by (auto simp: filter_id_conv)
qed

lemma token_row_sample: "token_row (sample_kline t) = sample_row t"
  by (simp add: token_row_def sample_kline_def sample_row_def)

lemma c_time_sample: "c_time (sample_row t) = t"
  by (simp add: sample_row_def)

theorem merge_idempotent_witness:
  "merge_frames (sort_key c_time) 1000 3000
     [[sample_row 1000, sample_row 2000], [sample_row 1000, sample_row 2000]]
     = [sample_row 1000, sample_row 2000]"
proof -
  have s: "sorted_wrt (<) (map c_time [sample_row 1000, sample_row 2000])"
    by (simp add: c_time_sample)
  have r: "\<forall>r \<in> set [sample_row 1000, sample_row 2000]. 1000 \<le> c_time r \<and> c_time r \<le> 3000"
    by (simp add: c_time_sample)
  from merge_idempotent [OF sorts_by_index_sort_key s, of 1000 3000] r show ?thesis by blast
qed

section \<open>Properties of the backward walk\<close>

subsection \<open>The futures functions are the spot functions\<close>

lemma get_future_price_bybit_eq:
  "get_future_price_bybit E response = get_spot_prices_bybit E response"
  by (simp add: get_future_price_bybit_def get_spot_prices_bybit_def)

lemma future_loop_eq:
  "future_loop E fetch st sm all_dfs ce = spot_loop E fetch st sm all_dfs ce"
proof (induction E fetch st sm all_dfs ce rule: spot_loop.induct)
  case (1 E fetch st sm all_dfs ce)
  show ?case
    apply (subst future_loop.simps)
    apply (subst spot_loop.simps)
    using 1 apply (simp add: Let_def get_future_price_bybit_eq)
    done
qed

lemma get_future_data_eq:
  "get_future_data_bybit_full_period E fetch st et = get_spot_data_bybit_full_period E fetch st et"
  by (simp add: get_future_data_bybit_full_period_def get_spot_data_bybit_full_period_def
      future_loop_eq Let_def split: time_arg.splits)

lemma get_spot_data_Datetime:
  "get_spot_data_bybit_full_period E fetch (Datetime s) (Datetime e) =
     Inr (merge_frames (sort_index E) s e
            (spot_loop E fetch s (datetime_ms E s) [] (datetime_ms E e)))"
  by (simp add: get_spot_data_bybit_full_period_def Let_def)

subsection \<open>Pages and frames\<close>

lemma page_rows:
  assumes "sorts_by_index (sort_index E)" and "r \<in> set (get_spot_prices_bybit E response)"
  shows "\<exists>klines. response = Json 0 klines \<and> r \<in> token_row ` set klines"
  using assms(2) sorts_by_index_set [OF assms(1)]
  by (auto simp: get_spot_prices_bybit_def split: http_response.splits if_splits)

lemma failed_page: "failed response \<Longrightarrow> get_spot_prices_bybit E response = []"
  by (cases response) (simp_all add: get_spot_prices_bybit_def)

lemma spot_loop_frames:
  "df \<in> set (spot_loop E fetch st sm all_dfs ce) \<Longrightarrow>
     df \<in> set all_dfs \<or>
     (\<exists>n e. df = filter (\<lambda>r. c_time r \<ge> st) (get_spot_prices_bybit E (fetch n sm e)))"
proof (induction E fetch st sm all_dfs ce rule: spot_loop.induct)
  case (1 E fetch st sm all_dfs ce)
  from "1.prems" show ?case
    apply (subst (asm) spot_loop.simps)
    apply (simp add: Let_def split: if_splits)
    using "1.IH" apply (auto simp: Let_def)
    done
qed

lemma spot_table_rows:
  assumes "sorts_by_index (sort_index E)"
    and "get_spot_data_bybit_full_period E fetch st et = Inr table" and "r \<in> set table"
  shows "\<exists>n s e. r \<in> set (get_spot_prices_bybit E (fetch n s e))"
proof -
  from assms(2,3) obtain s e sm em
    where "r \<in> set (merge_frames (sort_index E) s e (spot_loop E fetch s sm [] em))"
    by (auto simp: get_spot_data_bybit_full_period_def Let_def split: time_arg.splits)
  then obtain df where "df \<in> set (spot_loop E fetch s sm [] em)" and "r \<in> set df"
    using merge_frames_subset [OF assms(1)] by fastforce
  then have "\<exists>n e'. df = filter (\<lambda>r. c_time r \<ge> s) (get_spot_prices_bybit E (fetch n sm e'))"
    using spot_loop_frames [of df E fetch s sm "[]" em] by simp
  with \<open>r \<in> set df\<close> show ?thesis by fastforce
qed

lemma spot_loop_length:
  "length (spot_loop E fetch st sm all_dfs ce) \<le> max (Suc (length all_dfs)) 10001"
proof (induction E fetch st sm all_dfs ce rule: spot_loop.induct)
  case (1 E fetch st sm all_dfs ce)
  show ?case
    apply (subst spot_loop.simps)
    using "1.IH" apply (auto simp: Let_def)
    done
qed

lemma spot_loop_failed:
  "failed (fetch (length all_dfs) sm ce) \<Longrightarrow> spot_loop E fetch st sm all_dfs ce = all_dfs"
  by (subst spot_loop.simps) (simp add: failed_page)

lemma spot_loop_capped:
  assumes H: "\<And>n e. filter (\<lambda>r. st \<le> c_time r) (get_spot_prices_bybit E (fetch n sm e)) \<noteq> [] \<and>
               sm < timestamp_ms E (c_time (hd (filter (\<lambda>r. st \<le> c_time r)
                                                  (get_spot_prices_bybit E (fetch n sm e)))))"
  shows "length all_dfs \<le> 10000 \<Longrightarrow> length (spot_loop E fetch st sm all_dfs ce) = 10001"
proof (induction k \<equiv> "10000 - length all_dfs" arbitrary: all_dfs ce)
  case 0
  let ?p = "get_spot_prices_bybit E (fetch (length all_dfs) sm ce)"
  let ?df = "filter (\<lambda>r. st \<le> c_time r) ?p"
  have ne: "?p \<noteq> []" "?df \<noteq> []" and late: "\<not> timestamp_ms E (c_time (hd ?df)) \<le> sm"
    using H [of "length all_dfs" ce] by (auto simp: not_le)
  from 0 have "length all_dfs = 10000" by simp
  then show ?case
    apply (subst spot_loop.simps)
    using ne late apply (simp add: Let_def)
    done
next
  case (Suc k)
  let ?p = "get_spot_prices_bybit E (fetch (length all_dfs) sm ce)"
  let ?df = "filter (\<lambda>r. st \<le> c_time r) ?p"
  have ne: "?p \<noteq> []" "?df \<noteq> []" and late: "\<not> timestamp_ms E (c_time (hd ?df)) \<le> sm"
    using H [of "length all_dfs" ce] by (auto simp: not_le)
  have "length (spot_loop E fetch st sm (all_dfs @ [?df]) (timestamp_ms E (c_time (hd ?df)) - 1)) = 10001"
    using Suc by (intro Suc.hyps) auto
  moreover have "\<not> 10000 < Suc (length all_dfs)"
    using Suc.hyps(2) by simp
  ultimately show ?case
    apply (subst spot_loop.simps)
    using ne late apply (simp add: Let_def)
    done
qed

lemma get_spot_swallow:
  "get_spot_prices_bybit E (swallow fetch n s e) = get_spot_prices_bybit E (fetch n s e)"
  by (simp add: swallow_def failed_page) (simp add: get_spot_prices_bybit_def)

lemma spot_loop_swallow:
  "spot_loop E (swallow fetch) st sm all_dfs ce = spot_loop E fetch st sm all_dfs ce"
proof (induction E fetch st sm all_dfs ce rule: spot_loop.induct)
  case (1 E fetch st sm all_dfs ce)
  show ?case
    apply (subst spot_loop.simps [of E "swallow fetch"])
    apply (subst spot_loop.simps [of E fetch])
    apply (simp only: get_spot_swallow)
    using 1 apply (simp add: Let_def get_spot_swallow)
    done
qed

lemma spot_loop_first_then_failed:
  assumes "df = filter (\<lambda>r. st \<le> c_time r) (get_spot_prices_bybit E (fetch 0 sm em))"
    and "df \<noteq> []" and "sm < timestamp_ms E (c_time (hd df))"
    and "failed (fetch 1 sm (timestamp_ms E (c_time (hd df)) - 1))"
  shows "spot_loop E fetch st sm [] em = [df]"
proof -
  from assms(1,2) have p: "get_spot_prices_bybit E (fetch 0 sm em) \<noteq> []" by auto
  have "spot_loop E fetch st sm [df] (timestamp_ms E (c_time (hd df)) - 1) = [df]"
    using assms(4) by (intro spot_loop_failed) simp
  then show ?thesis
    apply (subst spot_loop.simps)
    using p assms(1,2,3) apply (simp add: Let_def not_le [symmetric])
    done
qed

subsection \<open>The sample exchanges\<close>

lemma utc_env_simps:
  "sort_index utc_env = sort_key c_time" "datetime_ms utc_env t = t" "timestamp_ms utc_env t = t"
  by (simp_all add: utc_env_def)

lemma two_pages_eval:
  "get_spot_data_bybit_full_period utc_env two_pages (Datetime 1000) (Datetime 3000) =
     Inr [sample_row 1000, sample_row 2000, sample_row 3000]"
  by (simp add: get_spot_data_Datetime utc_env_simps spot_loop.simps two_pages_def
      get_spot_prices_bybit_def token_row_sample c_time_sample merge_frames_def Let_def)

lemma failing_second_eval:
  "get_spot_data_bybit_full_period utc_env failing_second (Datetime 1000) (Datetime 3000) =
     Inr [sample_row 2000, sample_row 3000]"
  by (simp add: get_spot_data_Datetime utc_env_simps spot_loop.simps failing_second_def
      get_spot_prices_bybit_def token_row_sample c_time_sample merge_frames_def Let_def)

lemma refused_second_eval:
  "get_spot_data_bybit_full_period utc_env refused_second (Datetime 1000) (Datetime 3000) =
     Inr [sample_row 2000, sample_row 3000]"
  by (simp add: get_spot_data_Datetime utc_env_simps spot_loop.simps refused_second_def
      get_spot_prices_bybit_def token_row_sample c_time_sample merge_frames_def Let_def)

lemma stuck_page:
  "get_spot_prices_bybit utc_env (stuck_exchange n s e) = [sample_row (s + 1000)]"
  by (simp add: stuck_exchange_def get_spot_prices_bybit_def token_row_sample utc_env_simps)

lemma stuck_loop:
  "k \<le> 10000 \<Longrightarrow>
   spot_loop utc_env stuck_exchange 1000 1000 (replicate k [sample_row 2000]) ce =
     replicate 10001 [sample_row 2000]"
proof (induction j \<equiv> "10000 - k" arbitrary: k ce)
  case 0
  then have k: "k = 10000" by simp
  have "replicate 10000 [sample_row 2000] @ [[sample_row 2000]] =
          replicate (Suc 10000) [sample_row 2000]"
    by (simp only: replicate_append_same replicate_Suc)
  then show ?case
    apply (subst spot_loop.simps)
    apply (simp add: k stuck_page c_time_sample utc_env_simps Let_def)
    done
next
  case (Suc j)
  have "spot_loop utc_env stuck_exchange 1000 1000 (replicate (Suc k) [sample_row 2000]) 1999 =
          replicate 10001 [sample_row 2000]"
    using Suc by (intro Suc.hyps) auto
  moreover have "replicate k [sample_row 2000] @ [[sample_row 2000]] =
          replicate (Suc k) [sample_row 2000]"
    by (simp only: replicate_append_same replicate_Suc)
  moreover have "\<not> 10000 < Suc k" using Suc.hyps(2) by simp
  ultimately show ?case
    apply (subst spot_loop.simps)
    apply (simp add: stuck_page c_time_sample utc_env_simps Let_def)
    done
qed

lemma concat_replicate_single: "concat (replicate n [r]) = replicate n r"
  by (induction n) auto

lemma drop_duplicated_seen_replicate:
  "f r \<in> set seen \<Longrightarrow> drop_duplicated f seen (replicate n r) = []"
  by (induction n) auto

lemma merge_frames_replicate:
  assumes "s \<le> c_time r" and "c_time r \<le> e"
  shows "merge_frames (sort_key c_time) s e (replicate (Suc n) [r]) = [r]"
proof -
  have "sort_key c_time (replicate (Suc n) r) = replicate (Suc n) r"
    by (rule sort_key_id_if_sorted) (simp add: sorted_replicate)
  moreover have "drop_duplicated c_time [] (replicate (Suc n) r) = [r]"
    by (simp add: drop_duplicated_seen_replicate)
  ultimately show ?thesis
    using assms by (simp add: merge_frames_def Let_def concat_replicate_single
        del: replicate_Suc replicate.simps)
qed

lemma stuck_walk:
  "spot_loop utc_env stuck_exchange 1000 1000 [] 20000 = replicate 10001 [sample_row 2000]"
  using stuck_loop [of 0 20000] by simp

lemma stuck_eval:
  "get_spot_data_bybit_full_period utc_env stuck_exchange (Datetime 1000) (Datetime 20000) =
     Inr [sample_row 2000]"
proof -
  have "merge_frames (sort_key c_time) 1000 20000 (replicate (Suc 10000) [sample_row 2000]) =
          [sample_row 2000]"
    by (rule merge_frames_replicate) (simp_all add: c_time_sample)
  then show ?thesis
    by (simp add: get_spot_data_Datetime utc_env_simps stuck_walk)
qed

text \<open>
  C5. The table a spot or futures backfill returns has strictly increasing (so unique)
  timestamps, all of them within the requested start and end, whatever the exchange
  answers and whatever sort the library has.
\<close>

theorem backfill_strictly_increasing_in_range:
  assumes "sorts_by_index (sort_index E)"
  shows
  "(get_spot_data_bybit_full_period E fetch (Datetime start) (Datetime end) = Inr table \<longrightarrow>
      sorted_wrt (<) (map c_time table) \<and> distinct (map c_time table) \<and>
      (\<forall>r \<in> set table. start \<le> c_time r \<and> c_time r \<le> end)) \<and>
   (get_future_data_bybit_full_period E fetch (Datetime start) (Datetime end) = Inr table' \<longrightarrow>
      sorted_wrt (<) (map c_time table') \<and> distinct (map c_time table') \<and>
      (\<forall>r \<in> set table'. start \<le> c_time r \<and> c_time r \<le> end))"
proof -
  have "sorted_wrt (<) (map c_time (merge_frames (sort_index E) start end dfs)) \<and>
        distinct (map c_time (merge_frames (sort_index E) start end dfs)) \<and>
        (\<forall>r \<in> set (merge_frames (sort_index E) start end dfs). start \<le> c_time r \<and> c_time r \<le> end)"
    for dfs
    using merge_frames_strict [OF assms, of start "end" dfs]
      merge_frames_range [of _ "sort_index E" start "end" dfs]
    by (auto simp: strict_sorted_iff)
  then show ?thesis
    by (auto simp: get_future_data_eq get_spot_data_Datetime)
qed

theorem backfill_strictly_increasing_in_range_witness:
  "get_spot_data_bybit_full_period utc_env two_pages (Datetime 1000) (Datetime 3000) =
     Inr [sample_row 1000, sample_row 2000, sample_row 3000] \<and>
   sorted_wrt (<) (map c_time [sample_row 1000, sample_row 2000, sample_row 3000]) \<and>
   1000 \<le> c_time (sample_row 1000) \<and> c_time (sample_row 3000) \<le> 3000"
proof -
  have e: "get_spot_data_bybit_full_period utc_env two_pages (Datetime 1000) (Datetime 3000) =
     Inr [sample_row 1000, sample_row 2000, sample_row 3000]"
    by (simp add: get_spot_data_Datetime utc_env_simps spot_loop.simps two_pages_def
      get_spot_prices_bybit_def token_row_sample c_time_sample merge_frames_def Let_def)
  from backfill_strictly_increasing_in_range
    [OF sorts_by_index_utc, of two_pages 1000 3000
       "[sample_row 1000, sample_row 2000, sample_row 3000]"] e
  show ?thesis by simp
qed

text \<open>
  C9. Every row of a spot or futures page takes its open, its high and its low from the
  open of a kline of the payload, so in every row of a page and of a backfilled table the
  three are equal, whatever high and low the exchange sent.
\<close>

theorem high_low_are_open:
  assumes "sorts_by_index (sort_index E)"
  shows
  "(\<forall>r \<in> set (get_spot_prices_bybit E (Json retCode klines)).
      \<exists>k \<in> set klines. c_open r = k_open k \<and> c_high r = k_open k \<and> c_low r = k_open k) \<and>
   (\<forall>r \<in> set (get_future_price_bybit E (Json retCode klines)).
      \<exists>k \<in> set klines. c_open r = k_open k \<and> c_high r = k_open k \<and> c_low r = k_open k) \<and>
   (get_spot_data_bybit_full_period E fetch start_time end_time = Inr table \<longrightarrow>
      (\<forall>r \<in> set table. c_high r = c_open r \<and> c_low r = c_open r)) \<and>
   (get_future_data_bybit_full_period E fetch start_time end_time = Inr table' \<longrightarrow>
      (\<forall>r \<in> set table'. c_high r = c_open r \<and> c_low r = c_open r))"
proof -
  have page: "\<exists>k \<in> set ks. c_open r = k_open k \<and> c_high r = k_open k \<and> c_low r = k_open k"
    if "r \<in> set (get_spot_prices_bybit E (Json c ks))" for r c ks
    using page_rows [OF assms that] by (auto simp: token_row_def)
  have row: "c_high r = c_open r \<and> c_low r = c_open r"
    if "get_spot_data_bybit_full_period E fetch start_time end_time = Inr t" and "r \<in> set t"
    for r t
  proof -
    from spot_table_rows [OF assms that] obtain n s e
      where "r \<in> set (get_spot_prices_bybit E (fetch n s e))" by blast
    from page_rows [OF assms this] show ?thesis by (auto simp: token_row_def)
  qed
  show ?thesis
    using page row by (simp add: get_future_data_eq get_future_price_bybit_eq)
qed

theorem high_low_are_open_witness:
  "get_spot_data_bybit_full_period utc_env two_pages (Datetime 1000) (Datetime 3000) =
     Inr [sample_row 1000, sample_row 2000, sample_row 3000] \<and>
   k_high (sample_kline 2000) = 110 \<and> k_low (sample_kline 2000) = 90 \<and>
   c_high (sample_row 2000) = c_open (sample_row 2000) \<and>
   c_low (sample_row 2000) = c_open (sample_row 2000)"
proof -
  have e: "get_spot_data_bybit_full_period utc_env two_pages (Datetime 1000) (Datetime 3000) =
     Inr [sample_row 1000, sample_row 2000, sample_row 3000]"
    by (simp add: get_spot_data_Datetime utc_env_simps spot_loop.simps two_pages_def
      get_spot_prices_bybit_def token_row_sample c_time_sample merge_frames_def Let_def)
  from high_low_are_open
    [OF sorts_by_index_utc, of 0 "[]" two_pages "Datetime 1000" "Datetime 3000"
        "[sample_row 1000, sample_row 2000, sample_row 3000]"] e
  have "c_high (sample_row 2000) = c_open (sample_row 2000) \<and>
        c_low (sample_row 2000) = c_open (sample_row 2000)"
    by simp
  with e show ?thesis by (simp add: sample_kline_def)
qed

text \<open>
  C3, as the code has it. When no page of the exchange reaches the requested start as the
  walk tests it (every page keeps a row that is not before \<open>start_time\<close>, and the
  milliseconds computed for the first such row are above \<open>start_ms\<close>), the spot and the
  futures walk stop once they hold more than 10000 pages, that is after exactly 10001
  requests, and the backfill returns the merge of these pages: no error is raised.
\<close>

theorem walk_stops_at_cap:
  assumes "\<forall>n e. filter (\<lambda>r. start \<le> c_time r)
                   (get_spot_prices_bybit E (fetch n (datetime_ms E start) e)) \<noteq> [] \<and>
                 datetime_ms E start <
                   timestamp_ms E (c_time (hd (filter (\<lambda>r. start \<le> c_time r)
                     (get_spot_prices_bybit E (fetch n (datetime_ms E start) e)))))"
  shows "length (spot_loop E fetch start (datetime_ms E start) [] (datetime_ms E end)) = 10001 \<and>
         get_spot_data_bybit_full_period E fetch (Datetime start) (Datetime end) =
           Inr (merge_frames (sort_index E) start end
                  (spot_loop E fetch start (datetime_ms E start) [] (datetime_ms E end))) \<and>
         length (future_loop E fetch start (datetime_ms E start) [] (datetime_ms E end)) = 10001 \<and>
         get_future_data_bybit_full_period E fetch (Datetime start) (Datetime end) =
           Inr (merge_frames (sort_index E) start end
                  (future_loop E fetch start (datetime_ms E start) [] (datetime_ms E end)))"
proof -
  have "length (spot_loop E fetch start (datetime_ms E start) [] (datetime_ms E end)) = 10001"
    using assms by (intro spot_loop_capped) auto
  then show ?thesis
    by (simp add: future_loop_eq get_future_data_eq get_spot_data_Datetime)
qed

theorem walk_stops_at_cap_witness:
  "length (spot_loop utc_env stuck_exchange 1000 1000 [] 20000) = 10001 \<and>
   get_spot_data_bybit_full_period utc_env stuck_exchange (Datetime 1000) (Datetime 20000) =
     Inr (merge_frames (sort_key c_time) 1000 20000
            (spot_loop utc_env stuck_exchange 1000 1000 [] 20000))"
proof -
  have h: "\<forall>n e. filter (\<lambda>r. 1000 \<le> c_time r)
                   (get_spot_prices_bybit utc_env (stuck_exchange n (datetime_ms utc_env 1000) e)) \<noteq> [] \<and>
                 datetime_ms utc_env 1000 <
                   timestamp_ms utc_env (c_time (hd (filter (\<lambda>r. 1000 \<le> c_time r)
                     (get_spot_prices_bybit utc_env (stuck_exchange n (datetime_ms utc_env 1000) e)))))"
    by (simp add: stuck_page c_time_sample utc_env_simps)
  from walk_stops_at_cap [of 1000 utc_env stuck_exchange 20000] h show ?thesis
    by (simp add: utc_env_simps)
qed

theorem cap_returns_partial_table:
  "get_spot_data_bybit_full_period utc_env stuck_exchange (Datetime 1000) (Datetime 20000) =
     Inr [sample_row 2000] \<and>
   get_spot_data_bybit_full_period utc_env stuck_exchange (Datetime 1000) (Datetime 20000)
     \<noteq> Inl NonConvergenceError \<and>
   get_future_data_bybit_full_period utc_env stuck_exchange (Datetime 1000) (Datetime 20000) =
     Inr [sample_row 2000] \<and>
   get_future_data_bybit_full_period utc_env stuck_exchange (Datetime 1000) (Datetime 20000)
     \<noteq> Inl NonConvergenceError"
  by (simp add: get_future_data_eq stuck_eval)

text \<open>
  The funding walk has no bound: on an exchange that never reaches the start it does not
  return.
\<close>

lemma funding_loop_stuck:
  "funding_loop stuck_funding symbol 0 n all_rates current_end = None"
proof -
  have "fetch = stuck_funding \<longrightarrow> start = 0 \<longrightarrow> False"
    if "funding_loop fetch symbol start n all_rates current_end = Some y" for fetch start y
    by (rule funding_loop.raw_induct
          [where P = "\<lambda>fetch symbol start n all_rates current_end y.
                        fetch = stuck_funding \<longrightarrow> start = 0 \<longrightarrow> False", OF _ that])
       (auto simp: stuck_funding_def get_funding_rates_def Let_def split: if_splits, blast+)
  then show ?thesis by (cases "funding_loop stuck_funding symbol 0 n all_rates current_end") auto
qed

lemma get_funding_bybit_stuck:
  "get_funding_bybit utc_env stuck_funding [''SOLUSDT''] 0 20000 = None"
  by (simp add: get_funding_bybit_def funding_loop_stuck utc_env_simps)

text \<open>
  C4, as the code has it. A request that fails, by an exception or by a \<open>retCode\<close> that is
  not 0, is an empty page: the walk stops at it and keeps the frames it holds, so the
  backfill returns the merge of the pages before the failure (the empty table when the
  first request fails) and never ends in a fetch error. The backfill on an exchange
  equals the backfill on the exchange whose failures are replaced by empty pages.
\<close>

theorem failed_request_is_empty_page:
  "(failed response \<longrightarrow>
      get_spot_prices_bybit E response = [] \<and> get_future_price_bybit E response = []) \<and>
   (failed (fetch (length all_dfs) start_ms current_end) \<longrightarrow>
      spot_loop E fetch start_time start_ms all_dfs current_end = all_dfs \<and>
      future_loop E fetch start_time start_ms all_dfs current_end = all_dfs) \<and>
   (failed (fetch 0 (datetime_ms E start) (datetime_ms E end)) \<longrightarrow>
      get_spot_data_bybit_full_period E fetch (Datetime start) (Datetime end) = Inr [] \<and>
      get_future_data_bybit_full_period E fetch (Datetime start) (Datetime end) = Inr []) \<and>
   (df = filter (\<lambda>r. start \<le> c_time r)
           (get_spot_prices_bybit E (fetch 0 (datetime_ms E start) (datetime_ms E end))) \<and>
    df \<noteq> [] \<and> datetime_ms E start < timestamp_ms E (c_time (hd df)) \<and>
    failed (fetch 1 (datetime_ms E start) (timestamp_ms E (c_time (hd df)) - 1)) \<longrightarrow>
      get_spot_data_bybit_full_period E fetch (Datetime start) (Datetime end) =
        Inr (merge_frames (sort_index E) start end [df]) \<and>
      get_future_data_bybit_full_period E fetch (Datetime start) (Datetime end) =
        Inr (merge_frames (sort_index E) start end [df])) \<and>
   get_spot_data_bybit_full_period E fetch st et =
     get_spot_data_bybit_full_period E (swallow fetch) st et \<and>
   get_future_data_bybit_full_period E fetch st et =
     get_future_data_bybit_full_period E (swallow fetch) st et \<and>
   get_spot_data_bybit_full_period E fetch st et \<noteq> Inl FetchError \<and>
   get_future_data_bybit_full_period E fetch st et \<noteq> Inl FetchError"
proof -
  have a: "get_spot_prices_bybit E response = [] \<and> get_future_price_bybit E response = []"
    if "failed response"
    using failed_page [OF that] by (simp add: get_future_price_bybit_eq)
  have b: "spot_loop E fetch start_time start_ms all_dfs current_end = all_dfs \<and>
           future_loop E fetch start_time start_ms all_dfs current_end = all_dfs"
    if "failed (fetch (length all_dfs) start_ms current_end)"
    using that spot_loop_failed [of fetch all_dfs start_ms current_end E start_time]
    by (simp add: future_loop_eq)
  have c: "get_spot_data_bybit_full_period E fetch (Datetime start) (Datetime end) = Inr [] \<and>
           get_future_data_bybit_full_period E fetch (Datetime start) (Datetime end) = Inr []"
    if "failed (fetch 0 (datetime_ms E start) (datetime_ms E end))"
  proof -
    have "spot_loop E fetch start (datetime_ms E start) [] (datetime_ms E end) = []"
      using that by (intro spot_loop_failed) simp
    then show ?thesis
      by (simp add: get_future_data_eq get_spot_data_Datetime merge_frames_def)
  qed
  have d: "get_spot_data_bybit_full_period E fetch (Datetime start) (Datetime end) =
             Inr (merge_frames (sort_index E) start end [df]) \<and>
           get_future_data_bybit_full_period E fetch (Datetime start) (Datetime end) =
             Inr (merge_frames (sort_index E) start end [df])"
    if "df = filter (\<lambda>r. start \<le> c_time r)
           (get_spot_prices_bybit E (fetch 0 (datetime_ms E start) (datetime_ms E end)))"
      and "df \<noteq> []" and "datetime_ms E start < timestamp_ms E (c_time (hd df))"
      and "failed (fetch 1 (datetime_ms E start) (timestamp_ms E (c_time (hd df)) - 1))"
    using that spot_loop_first_then_failed
      [of df start E fetch "datetime_ms E start" "datetime_ms E end"]
    by (simp add: get_future_data_eq get_spot_data_Datetime)
  have e: "get_spot_data_bybit_full_period E fetch st et =
           get_spot_data_bybit_full_period E (swallow fetch) st et"
    by (simp add: get_spot_data_bybit_full_period_def spot_loop_swallow Let_def
        split: time_arg.splits)
  have f: "get_spot_data_bybit_full_period E fetch st et \<noteq> Inl FetchError"
    by (simp add: get_spot_data_bybit_full_period_def Let_def split: time_arg.splits)
  from a b c d e f show ?thesis
    by (simp only: get_future_data_eq) blast
qed

theorem failed_request_is_empty_page_witness:
  "refused_second 1 1000 1999 = Json 10001 [sample_kline 1000] \<and>
   get_spot_data_bybit_full_period utc_env refused_second (Datetime 1000) (Datetime 3000) =
     Inr [sample_row 2000, sample_row 3000]"
proof -
  let ?df = "[sample_row 2000, sample_row 3000]"
  have p: "get_spot_prices_bybit utc_env (refused_second 0 1000 3000) = ?df"
    by (simp add: refused_second_def get_spot_prices_bybit_def token_row_sample c_time_sample
        utc_env_simps)
  have r: "refused_second 1 1000 1999 = Json 10001 [sample_kline 1000]"
    by (simp add: refused_second_def)
  have r': "failed (refused_second 1 1000 1999)"
    by (simp only: r failed.simps)
  have h: "?df = filter (\<lambda>r. 1000 \<le> c_time r)
                 (get_spot_prices_bybit utc_env
                    (refused_second 0 (datetime_ms utc_env 1000) (datetime_ms utc_env 3000))) \<and>
           ?df \<noteq> [] \<and> datetime_ms utc_env 1000 < timestamp_ms utc_env (c_time (hd ?df)) \<and>
           failed (refused_second 1 (datetime_ms utc_env 1000)
                     (timestamp_ms utc_env (c_time (hd ?df)) - 1))"
    using r' by (simp add: utc_env_simps p c_time_sample del: One_nat_def)
  have m: "merge_frames (sort_index utc_env) 1000 3000 [?df] = ?df"
    by (simp add: merge_frames_def utc_env_simps c_time_sample Let_def)
  from failed_request_is_empty_page
    [where E = utc_env and fetch = refused_second and start = 1000 and ?end = 3000 and df = ?df] h
  have "get_spot_data_bybit_full_period utc_env refused_second (Datetime 1000) (Datetime 3000) =
          Inr (merge_frames (sort_index utc_env) 1000 3000 [?df])"
    by blast
  with m r show ?thesis by simp
qed

theorem failed_request_partial_table:
  "failing_second 1 1000 1999 = HTTPFailure \<and>
   get_spot_data_bybit_full_period utc_env failing_second (Datetime 1000) (Datetime 3000) =
     Inr [sample_row 2000, sample_row 3000] \<and>
   get_future_data_bybit_full_period utc_env failing_second (Datetime 1000) (Datetime 3000) =
     Inr [sample_row 2000, sample_row 3000] \<and>
   refused_second 1 1000 1999 = Json 10001 [sample_kline 1000] \<and>
   get_spot_data_bybit_full_period utc_env refused_second (Datetime 1000) (Datetime 3000) =
     Inr [sample_row 2000, sample_row 3000]"
  by (simp add: get_future_data_eq failing_second_eval refused_second_eval)
     (simp add: failing_second_def refused_second_def)

section \<open>Properties of the hourly grid\<close>

lemma floor_H_le: "floor_H t \<le> t"
proof -
  have "t div 3600000 * 3600000 \<le> t" by simp
  then show ?thesis by (simp add: floor_H_def hour_ms_def)
qed

lemma ceil_H_ge: "t \<le> ceil_H t"
proof -
  have "(- t) div 3600000 * 3600000 \<le> - t" by simp
  then show ?thesis by (simp add: ceil_H_def hour_ms_def)
qed

lemma floor_H_multiple: "floor_H (a * hour_ms) = a * hour_ms"
  by (simp add: floor_H_def hour_ms_def)

lemma date_range_H_length: "length (date_range_H a b) = nat ((b - a) div hour_ms + 1)"
  by (simp add: date_range_H_def)

lemma date_range_H_hours:
  "h \<in> set (date_range_H (floor_H s) b) \<Longrightarrow> floor_H h = h"
proof -
  assume "h \<in> set (date_range_H (floor_H s) b)"
  then obtain k where "h = floor_H s + int k * hour_ms"
    by (auto simp: date_range_H_def)
  then have "h = (s div hour_ms + int k) * hour_ms"
    by (simp add: floor_H_def algebra_simps)
  then show ?thesis by (simp only: floor_H_multiple)
qed

lemma hourly_grid_length:
  "length (hourly_grid df_fund s e) = nat ((ceil_H e - floor_H s) div hour_ms + 1)"
  by (simp add: hourly_grid_def Let_def date_range_H_length)

lemma hourly_grid_rows:
  assumes "(h, v) \<in> set (hourly_grid df_fund s e)"
  shows "floor_H h = h \<and> (h \<notin> fundingRateTimestamp ` set df_fund \<longrightarrow> v = 0)"
proof -
  let ?series = "drop_duplicated snd [] (map (\<lambda>r. (fundingRateTimestamp r, fundingRate r)) df_fund)"
  from assms have h: "h \<in> set (date_range_H (floor_H s) (ceil_H e))"
    and v: "v = (case map_of ?series h of None \<Rightarrow> 0 | Some x \<Rightarrow> x)"
    by (auto simp: hourly_grid_def Let_def)
  have "fst ` set ?series \<subseteq> fundingRateTimestamp ` set df_fund"
    using drop_duplicated_subset [of snd "[]" "map (\<lambda>r. (fundingRateTimestamp r, fundingRate r)) df_fund"]
    by force
  then have "h \<notin> fundingRateTimestamp ` set df_fund \<Longrightarrow> map_of ?series h = None"
    by (auto simp: map_of_eq_None_iff)
  with v h show ?thesis by (auto dest: date_range_H_hours)
qed

text \<open>
  C6, as the code has it. For a start that is not after the end, the grid has one row for
  every hour from the floor of the start to the ceiling of the end, and a row whose hour
  is not the time of a funding row (so also every row whose hour is not the floor hour of
  one) carries 0.
\<close>

theorem hourly_grid_rows_and_zeros:
  assumes "start \<le> end"
  shows "length (hourly_grid df_fund start end) = nat ((ceil_H end - floor_H start) div hour_ms) + 1 \<and>
         (\<forall>(h, v) \<in> set (hourly_grid df_fund start end).
            h \<notin> fundingRateTimestamp ` set df_fund \<longrightarrow> v = 0) \<and>
         (\<forall>(h, v) \<in> set (hourly_grid df_fund start end).
            h \<notin> floor_H ` fundingRateTimestamp ` set df_fund \<longrightarrow> v = 0)"
proof -
  have "floor_H start \<le> ceil_H end"
    using floor_H_le [of start] ceil_H_ge [of "end"] assms by linarith
  then have "0 \<le> (ceil_H end - floor_H start) div hour_ms"
    by (simp add: hour_ms_def pos_imp_zdiv_nonneg_iff)
  then have len: "length (hourly_grid df_fund start end) =
      nat ((ceil_H end - floor_H start) div hour_ms) + 1"
    by (simp add: hourly_grid_length nat_add_distrib)
  have exact: "h \<notin> fundingRateTimestamp ` set df_fund \<longrightarrow> v = 0"
    if "(h, v) \<in> set (hourly_grid df_fund start end)" for h v
    using hourly_grid_rows [OF that] by simp
  have floored: "h \<notin> floor_H ` fundingRateTimestamp ` set df_fund \<longrightarrow> v = 0"
    if "(h, v) \<in> set (hourly_grid df_fund start end)" for h v
  proof
    assume n: "h \<notin> floor_H ` fundingRateTimestamp ` set df_fund"
    from hourly_grid_rows [OF that] have fh: "floor_H h = h"
      and z: "h \<notin> fundingRateTimestamp ` set df_fund \<longrightarrow> v = 0" by simp_all
    have "h \<notin> fundingRateTimestamp ` set df_fund"
    proof
      assume "h \<in> fundingRateTimestamp ` set df_fund"
      then have "floor_H h \<in> floor_H ` fundingRateTimestamp ` set df_fund" by (rule imageI)
      with fh n show False by simp
    qed
    with z show "v = 0" by simp
  qed
  from len exact floored show ?thesis by auto
qed

lemma hourly_grid_sample:
  "hourly_grid [sample_funding 3600000] 1800000 5400000 =
     [(0, 0), (3600000, 1 / 10000), (7200000, 0)]"
proof -
  have "[0 ..< 3] = [0, 1, 2]" by (simp add: upt_rec)
  then show ?thesis
    by (simp add: hourly_grid_def Let_def date_range_H_def floor_H_def ceil_H_def hour_ms_def
      sample_funding_def)
qed

theorem hourly_grid_rows_and_zeros_witness:
  "length (hourly_grid [sample_funding 3600000] 1800000 5400000) = 3 \<and>
   hourly_grid [sample_funding 3600000] 1800000 5400000 =
     [(0, 0), (3600000, 1 / 10000), (7200000, 0)]"
proof -
  have le: "(1800000::int) \<le> 5400000" by simp
  have "nat ((ceil_H 5400000 - floor_H 1800000) div hour_ms) + 1 = 3"
    by (simp add: floor_H_def ceil_H_def hour_ms_def)
  with hourly_grid_rows_and_zeros [OF le, of "[sample_funding 3600000]"] hourly_grid_sample
  show ?thesis by simp
qed

lemma one_funding_loop:
  "funding_loop one_funding ''SOLUSDT'' 1800000 0 [] 5400000 = Some [sample_funding 3600000]"
  by (simp add: funding_loop.simps one_funding_def get_funding_rates_def sample_funding_def Let_def)

theorem grid_rows_counterexample:
  "get_funding_bybit utc_env one_funding [''SOLUSDT''] 1800000 5400000 =
     Some (Inr [(0, 0), (3600000, 1 / 10000), (7200000, 0)]) \<and>
   spec_grid_rows 1800000 5400000 = 2"
proof -
  have "funding_frame 1800000 5400000 [sample_funding 3600000] = [sample_funding 3600000]"
    by (simp add: funding_frame_def sample_funding_def)
  then have "get_funding_bybit utc_env one_funding [''SOLUSDT''] 1800000 5400000 =
     Some (Inr [(0, 0), (3600000, 1 / 10000), (7200000, 0)])"
    by (simp add: get_funding_bybit_def utc_env_simps one_funding_loop hourly_grid_sample)
  moreover have "spec_grid_rows 1800000 5400000 = 2"
    by (simp add: spec_grid_rows_def hour_ms_def)
  ultimately show ?thesis by simp
qed

section \<open>Properties of the arithmetic of binary64\<close>

lemma bexp_from_eq:
  "2 powi e \<le> a \<Longrightarrow> a < 2 powi (e + 1) \<Longrightarrow> e0 \<le> e \<Longrightarrow> nat (e - e0) \<le> n \<Longrightarrow> bexp_from n a e0 = e"
proof (induction n arbitrary: e0)
  case 0
  then show ?case by simp
next
  case (Suc n)
  show ?case
  proof (cases "e0 = e")
    case True
    with Suc.prems show ?thesis by simp
  next
    case False
    with Suc.prems have lt: "e0 + 1 \<le> e" by simp
    then have "(2::real) powi (e0 + 1) \<le> 2 powi e"
      by (intro power_int_increasing) auto
    with Suc.prems have "2 powi (e0 + 1) \<le> a" by linarith
    moreover have "bexp_from n a (e0 + 1) = e"
      using Suc.prems lt by (intro Suc.IH) auto
    ultimately show ?thesis by simp
  qed
qed

lemma bexp_eq:
  "2 powi e \<le> a \<Longrightarrow> a < 2 powi (e + 1) \<Longrightarrow> - 1022 \<le> e \<Longrightarrow> e \<le> 1023 \<Longrightarrow> bexp a = e"
  unfolding bexp_def by (rule bexp_from_eq) auto

lemma round_half_even_nearest:
  assumes "of_int m - 1 / 2 < x" and "x < of_int m + 1 / 2"
  shows "round_half_even x = m"
proof (cases "of_int m \<le> x")
  case True
  with assms have "\<lfloor>x\<rfloor> = m" by (simp add: floor_eq_iff)
  with assms show ?thesis by (simp add: round_half_even_def Let_def)
next
  case False
  with assms have f: "\<lfloor>x\<rfloor> = m - 1" by (simp add: floor_eq_iff)
  have "\<not> x - of_int (m - 1) < 1 / 2" "1 / 2 < x - of_int (m - 1)"
    using assms by simp_all
  with f show ?thesis by (simp add: round_half_even_def Let_def)
qed


lemma binary64_round:
  assumes "2 powi e \<le> \<bar>x\<bar>" and "\<bar>x\<bar> < 2 powi (e + 1)" and "- 1022 \<le> e" and "e \<le> 1023"
    and "round_half_even (x / 2 powi (e - 52)) = m"
  shows "binary64 x = of_int m * 2 powi (e - 52)"
  using bexp_eq [OF assms(1-4)] assms(5)
  by (simp add: binary64_def Let_def)

lemma binary64_nearest:
  assumes "2 powi e \<le> \<bar>x\<bar>" and "\<bar>x\<bar> < 2 powi (e + 1)" and "- 1022 \<le> e" and "e \<le> 1023"
    and "of_int m - 1 / 2 < x / 2 powi (e - 52)" and "x / 2 powi (e - 52) < of_int m + 1 / 2"
    and "y = of_int m * 2 powi (e - 52)"
  shows "binary64 x = y"
  using binary64_round [OF assms(1-4) round_half_even_nearest [OF assms(5,6)]] assms(7)
  by simp


lemma binary64_0: "binary64 0 = 0"
  by (simp add: binary64_def round_half_even_def)

lemma binary64_ops_simps:
  "rnd binary64_ops = binary64" "np_sum binary64_ops = seq_sum binary64"
  by (simp_all add: binary64_ops_def)

subsection \<open>The series 0.1, 0.1, 0.1\<close>










section \<open>Properties of the statistics\<close>

subsection \<open>The Sharpe ratio\<close>








subsection \<open>The Calmar and the Sortino ratio\<close>

lemma MaxDrawdown_Nil: "MaxDrawdown P [] = NaN"
  by (simp add: MaxDrawdown_def series_min_def)

lemma fdiv_above_threshold:
  "0 \<le> t \<Longrightarrow> fgt (fabs m) (Finite t) \<Longrightarrow> fround P (fdiv (Finite a) (fabs m)) \<noteq> NaN"
  by (cases m) auto

lemma calmar_nan_iff:
  assumes "0 \<le> rnd P (1 / 10 ^ 8)"
  shows "CalmarRatio P rets = NaN \<longleftrightarrow>
           \<not> fgt (fabs (MaxDrawdown P rets)) (Finite (rnd P (1 / 10 ^ 8)))"
proof (cases "fgt (fabs (MaxDrawdown P rets)) (Finite (rnd P (1 / 10 ^ 8)))")
  case True
  then have "rets \<noteq> []" using MaxDrawdown_Nil by auto
  then have "Return P rets = Finite (rnd P (np_mean P rets * days_in_year))"
    by (simp add: Return_def)
  with True fdiv_above_threshold [OF assms True] show ?thesis
    by (simp add: CalmarRatio_def Let_def)
next
  case False
  then show ?thesis by (simp add: CalmarRatio_def Let_def)
qed

lemma downside_vol_nonneg_series:
  "\<forall>r \<in> set rets. 0 \<le> r \<Longrightarrow> downside_vol P rets = 0"
proof -
  assume "\<forall>r \<in> set rets. 0 \<le> r"
  then have "filter (\<lambda>r. r < 0) rets = []" by (auto simp: filter_empty_conv not_less)
  then show ?thesis by (simp add: downside_vol_def Let_def)
qed

lemma sortino_nan_iff:
  assumes "0 \<le> rnd P (1 / 10 ^ 8)"
  shows "SortinoRatio P rets = NaN \<longleftrightarrow> downside_vol P rets \<le> rnd P (1 / 10 ^ 8)"
proof (cases "downside_vol P rets > rnd P (1 / 10 ^ 8)")
  case True
  with assms have nz: "downside_vol P rets \<noteq> 0" by auto
  then have "filter (\<lambda>r. r < 0) rets \<noteq> []"
    by (auto simp: downside_vol_def Let_def split: if_splits)
  then have "rets \<noteq> []" by auto
  then have "Return P rets = Finite (rnd P (np_mean P rets * days_in_year))"
    by (simp add: Return_def)
  with True nz show ?thesis by (simp add: SortinoRatio_def)
next
  case False
  then show ?thesis by (simp add: SortinoRatio_def)
qed

text \<open>
  C8, as the code has it. With the threshold the double that \<open>1e-8\<close> reads as (it is not
  negative), the Calmar ratio is NaN exactly when the absolute maximum drawdown is not
  above the threshold: at or below it, or NaN itself. The Sortino ratio is NaN exactly when
  the downside volatility is at or below the threshold, which holds for every series
  without a negative return. Both are values, never an exception.
\<close>

theorem calmar_sortino_sentinel:
  assumes "0 \<le> rnd P (1 / 10 ^ 8)"
  shows
  "(CalmarRatio P rets = NaN \<longleftrightarrow>
      \<not> fgt (fabs (MaxDrawdown P rets)) (Finite (rnd P (1 / 10 ^ 8)))) \<and>
   (MaxDrawdown P rets = Finite d \<longrightarrow>
      (CalmarRatio P rets = NaN \<longleftrightarrow> \<bar>d\<bar> \<le> rnd P (1 / 10 ^ 8))) \<and>
   (MaxDrawdown P rets = NaN \<longrightarrow> CalmarRatio P rets = NaN) \<and>
   (SortinoRatio P rets = NaN \<longleftrightarrow> downside_vol P rets \<le> rnd P (1 / 10 ^ 8)) \<and>
   ((\<forall>r \<in> set rets. 0 \<le> r) \<longrightarrow> downside_vol P rets = 0 \<and> SortinoRatio P rets = NaN)"
proof -
  note c = calmar_nan_iff [OF assms, of rets] and s = sortino_nan_iff [OF assms, of rets]
  have "CalmarRatio P rets = NaN \<longleftrightarrow> \<bar>d\<bar> \<le> rnd P (1 / 10 ^ 8)" if "MaxDrawdown P rets = Finite d"
    using c that by (simp add: not_less)
  moreover have "CalmarRatio P rets = NaN" if "MaxDrawdown P rets = NaN"
    using c that by simp
  moreover have "downside_vol P rets = 0 \<and> SortinoRatio P rets = NaN" if "\<forall>r \<in> set rets. 0 \<le> r"
    using downside_vol_nonneg_series [OF that, of P] s assms by simp
  ultimately show ?thesis
    using c s by blast
qed

subsection \<open>A drawdown of exactly the threshold\<close>

lemma double_1e_8_read: "binary64 (1 / 10 ^ 8) = double_1e_8"
  by (rule binary64_nearest [where e = "- 27" and m = 6044629098073146])
     (simp_all add: double_1e_8_def power_int_minus)

lemma double_1e_8_nonneg: "0 \<le> rnd binary64_ops (1 / 10 ^ 8)"
  by (simp only: binary64_ops_simps double_1e_8_read) (simp add: double_1e_8_def)

lemma boundary_drawdown:
  "MaxDrawdown binary64_ops boundary_returns = Finite (- double_1e_8)"
proof -
  let ?x1 = "17592186328125 / 2 ^ 44 :: real"
  let ?x2 = "9007199164668999 / 2 ^ 53 :: real"
  let ?w = "4503599654964003 / 2 ^ 52 :: real"
  have b1: "binary64 (1 + 283709 / 2 ^ 44) = ?x1"
    by (rule binary64_nearest [where e = 0 and m = 4503599700000000])
       (simp_all add: power_int_minus)
  have b2: "binary64 (1 + - (90071993 / 2 ^ 53)) = ?x2"
    by (rule binary64_nearest [where e = "- 1" and m = 9007199164668999])
       (simp_all add: power_int_minus)
  have b3: "binary64 (?x1 * ?x2) = ?w"
    by (rule binary64_nearest [where e = 0 and m = 4503599654964003])
       (simp_all add: power_int_minus)
  have b4: "binary64 (?x1 - ?x1) = 0"
    by (simp add: binary64_0)
  have b5: "binary64 (?w - ?x1) = - (45035997 / 2 ^ 52)"
    by (rule binary64_nearest [where e = "- 27" and m = "- 6044629195554816"])
       (simp_all add: power_int_minus)
  have b6: "binary64 (- (45035997 / 2 ^ 52) / ?x1) = - double_1e_8"
    by (rule binary64_nearest [where e = "- 27" and m = "- 6044629098073146"])
       (simp_all add: double_1e_8_def power_int_minus)
  have b7: "binary64 (0 / ?x1) = 0"
    by (simp add: binary64_0)
  have nz: "?x1 \<noteq> 0" by simp
  have wealth: "cumprod binary64_ops (map (\<lambda>r. rnd binary64_ops (1 + r)) boundary_returns) =
                  [?x1, ?w]"
    by (simp only: boundary_returns_def list.map binary64_ops_simps b1 b2 cumprod.simps
        cumprod_from.simps b3)
  have mx: "cummax [?x1, ?w] = [?x1, ?x1]"
    by simp
  have d1: "fround binary64_ops (fdiv (Finite (rnd binary64_ops (?x1 - ?x1))) (Finite ?x1)) =
              Finite 0"
    by (simp only: binary64_ops_simps b4 fdiv.simps nz if_False fround.simps b7)
  have d2: "fround binary64_ops (fdiv (Finite (rnd binary64_ops (?w - ?x1))) (Finite ?x1)) =
              Finite (- double_1e_8)"
    by (simp only: binary64_ops_simps b5 fdiv.simps nz if_False fround.simps b6)
  have "MaxDrawdown binary64_ops boundary_returns = series_min [Finite 0, Finite (- double_1e_8)]"
    by (simp only: MaxDrawdown_def Let_def wealth mx zip_Cons_Cons zip_Nil list.map
        case_prod_conv d1 d2)
  then show ?thesis
    by (simp add: series_min_def fmin_def double_1e_8_def)
qed

lemma total_loss_drawdown: "MaxDrawdown binary64_ops [- 1] = NaN"
proof -
  have "binary64 (1 + - 1) = 0" by (simp add: binary64_0)
  then show ?thesis
    by (simp add: MaxDrawdown_def binary64_ops_simps binary64_0 inf_of_sign_def series_min_def)
qed

theorem calmar_sortino_sentinel_witness:
  "MaxDrawdown binary64_ops boundary_returns = Finite (- double_1e_8) \<and>
   CalmarRatio binary64_ops boundary_returns = NaN \<and>
   CalmarRatio binary64_ops [- 1] = NaN \<and>
   SortinoRatio binary64_ops [1 / 2, 0, 1 / 4] = NaN"
proof -
  note t = calmar_sortino_sentinel [OF double_1e_8_nonneg]
  have le: "\<bar>- double_1e_8\<bar> \<le> rnd binary64_ops (1 / 10 ^ 8)"
    by (simp only: binary64_ops_simps double_1e_8_read) (simp add: double_1e_8_def)
  have nn: "\<forall>r \<in> set [1 / 2, 0, 1 / 4 :: real]. 0 \<le> r" by simp
  from t [of boundary_returns "- double_1e_8"] boundary_drawdown le
  have "CalmarRatio binary64_ops boundary_returns = NaN" by blast
  moreover from t [of "[- 1]"] total_loss_drawdown
  have "CalmarRatio binary64_ops [- 1] = NaN" by blast
  moreover from t [of "[1 / 2, 0, 1 / 4]"] nn
  have "SortinoRatio binary64_ops [1 / 2, 0, 1 / 4] = NaN" by blast
  ultimately show ?thesis using boundary_drawdown by simp
qed

text \<open>
  On the returns 1.612698952158098e-08, -1.0000000050247593e-08 the maximum drawdown is
  computed as exactly -1e-8: its absolute value is not below 1e-8, and the Calmar ratio is
  NaN. On the return -1 the maximum drawdown is NaN, not below 1e-8 either, and the Calmar
  ratio is NaN.
\<close>

theorem calmar_boundary_counterexample:
  "rnd binary64_ops (1 / 10 ^ 8) = double_1e_8 \<and>
   MaxDrawdown binary64_ops boundary_returns = Finite (- double_1e_8) \<and>
   \<not> \<bar>- double_1e_8\<bar> < double_1e_8 \<and>
   CalmarRatio binary64_ops boundary_returns = NaN \<and>
   MaxDrawdown binary64_ops [- 1] = NaN \<and>
   \<not> fgt (Finite double_1e_8) (fabs (MaxDrawdown binary64_ops [- 1])) \<and>
   CalmarRatio binary64_ops [- 1] = NaN"
proof -
  have e: "rnd binary64_ops (1 / 10 ^ 8) = double_1e_8"
    by (simp only: binary64_ops_simps double_1e_8_read)
  have a: "CalmarRatio binary64_ops boundary_returns = NaN"
    unfolding CalmarRatio_def Let_def boundary_drawdown e by (simp add: double_1e_8_def)
  have b: "CalmarRatio binary64_ops [- 1] = NaN"
    unfolding CalmarRatio_def Let_def total_loss_drawdown by simp
  have c: "\<not> \<bar>- double_1e_8\<bar> < double_1e_8" by simp
  from e a b c boundary_drawdown total_loss_drawdown show ?thesis by simp
qed

section \<open>Properties of the probabilistic and the deflated Sharpe ratio\<close>

lemma sample_moments:
  "arith_mean sample_returns = 0" "moment 2 sample_returns = 1 / 2"
  "moment 3 sample_returns = 0" "moment 4 sample_returns = 1 / 2"
  by (simp_all add: sample_returns_def moment_def arith_mean_def power2_eq_square power3_eq_cube
      power4_eq_xxxx)

lemma sample_skew: "skew sample_returns = Finite 0"
  by (simp add: skew_def sample_moments) (simp add: sample_returns_def)

lemma sample_kurtosis: "kurtosis sample_returns = Finite (- 1)"
  by (simp add: kurtosis_def sample_moments power2_eq_square) (simp add: sample_returns_def)

lemma sample_length: "length sample_returns = 4"
  by (simp add: sample_returns_def)

lemma prob_sharpe_sample:
  "prob_sharpe cdf kind sample_returns sr (Finite 0) =
     (if 1 + sr / 4 < 0 then Inl ValueError
      else if 1 + sr / 4 = 0 \<and> kind = PyFloat then Inl ZeroDivisionError
      else Inr (norm_cdf cdf (fdiv (Finite (sr * sqrt 3)) (Finite (sqrt (1 + sr / 4))))))"
  by (simp add: prob_sharpe_def sample_skew sample_kurtosis sample_length fsub_def Let_def)

text \<open>
  C1. The radicand of the statistic has the kurtosis term times the tested ratio, not its
  square. On the returns -1, 0, 0, 1 (skewness 0, excess kurtosis -1) a tested ratio of -8
  makes the radicand of the code -1, and the square root raises, where the radicand of
  the specification is 17; a tested ratio of 2 gives the statistic 2 * sqrt 3 / sqrt (3/2)
  where the specification gives 2 * sqrt 3 / sqrt 2.
\<close>

theorem prob_sharpe_kurtosis_term_not_squared:
  "skew sample_returns = Finite 0 \<and> kurtosis sample_returns = Finite (- 1) \<and>
   prob_sharpe cdf kind sample_returns (- 8) (Finite 0) = Inl ValueError \<and>
   spec_psr_radicand 0 (- 1) (- 8) = 17 \<and>
   prob_sharpe cdf kind sample_returns 2 (Finite 0) = Inr (Finite (cdf (2 * sqrt 3 / sqrt (3 / 2)))) \<and>
   spec_psr_z 0 (- 1) (length sample_returns) 2 0 = 2 * sqrt 3 / sqrt 2 \<and>
   2 * sqrt 3 / sqrt (3 / 2) \<noteq> 2 * sqrt 3 / sqrt 2"
proof -
  have a: "prob_sharpe cdf kind sample_returns (- 8) (Finite 0) = Inl ValueError"
    by (simp add: prob_sharpe_sample)
  have b: "spec_psr_radicand 0 (- 1) (- 8) = 17"
    by (simp add: spec_psr_radicand_def)
  have "1 + 2 / 4 = (3 / 2 :: real)" by simp
  then have c: "prob_sharpe cdf kind sample_returns 2 (Finite 0) =
      Inr (Finite (cdf (2 * sqrt 3 / sqrt (3 / 2))))"
    by (simp add: prob_sharpe_sample)
  have d: "spec_psr_z 0 (- 1) (length sample_returns) 2 0 = 2 * sqrt 3 / sqrt 2"
    by (simp add: spec_psr_z_def spec_psr_radicand_def sample_length)
  have "sqrt (3 / 2) \<noteq> sqrt 2" by simp
  then have e: "2 * sqrt 3 / sqrt (3 / 2) \<noteq> 2 * sqrt 3 / sqrt 2"
    by (simp add: real_sqrt_divide)
  from a b c d e show ?thesis by (simp only: sample_skew sample_kurtosis simp_thms)
qed

lemma euler_mascheroni_y_bounds: "0 < euler_mascheroni_y" "euler_mascheroni_y < 1"
  by (simp_all add: euler_mascheroni_y_def)

lemma reciprocal_ge:
  fixes a p :: real
  assumes "0 \<le> a" and "0 < p" and "p \<le> 1"
  shows "a \<le> a / p"
proof -
  from assms have "a * p \<le> a * 1" by (intro mult_left_mono) auto
  with assms show ?thesis by (simp add: pos_le_divide_eq)
qed

lemma deflated_sharpe_unfold:
  "bagging_strategies \<noteq> [] \<Longrightarrow>
   deflated_sharpe P cdf ddof returns bagging_strategies sr_tested =
     prob_sharpe cdf NpFloat returns sr_tested
       (sr_etalon_of cdf (sharpes_std ddof (map (SharpeRatio P) bagging_strategies))
          (length bagging_strategies))"
  by (simp add: deflated_sharpe_def Let_def)

text \<open>
  C2. The benchmark of the code divides by the values of the distribution function where
  the specification multiplies by the values of its inverse. For a distribution function
  with values in (0, 1] at the two arguments and a standard deviation \<open>s\<close> of the Sharpe
  ratios that is not negative, the benchmark of the code is at least \<open>s\<close>, for every \<open>N\<close>;
  the benchmark of the specification for two strategies, with a quantile function that is
  0 at 1/2, is \<open>s\<close> times the constant times the quantile at 1 - 1/(2e), which is below \<open>s\<close>
  when that product is below 1 (for the normal distribution it is about 0.52).
\<close>

theorem deflated_benchmark_divides_by_cdf:
  assumes "0 < cdf (1 - 1 / real N)" and "cdf (1 - 1 / real N) \<le> 1"
    and "0 < cdf (1 - 1 / (real N * exp 1))" and "cdf (1 - 1 / (real N * exp 1)) \<le> 1"
    and "0 \<le> s"
  shows "sr_etalon_of cdf (Finite s) N =
           Finite (s * ((1 - euler_mascheroni_y) / cdf (1 - 1 / real N)
                        + euler_mascheroni_y / cdf (1 - 1 / (real N * exp 1)))) \<and>
         s \<le> s * ((1 - euler_mascheroni_y) / cdf (1 - 1 / real N)
                   + euler_mascheroni_y / cdf (1 - 1 / (real N * exp 1))) \<and>
         (quantile (1 / 2) = 0 \<longrightarrow>
            spec_sr_benchmark quantile s 2 =
              s * (euler_mascheroni_y * quantile (1 - 1 / (2 * exp 1)))) \<and>
         (quantile (1 / 2) = 0 \<and> euler_mascheroni_y * quantile (1 - 1 / (2 * exp 1)) < 1 \<and> 0 < s \<longrightarrow>
            spec_sr_benchmark quantile s 2 < s)"
proof -
  let ?a = "cdf (1 - 1 / real N)" and ?b = "cdf (1 - 1 / (real N * exp 1))"
  let ?y = euler_mascheroni_y
  from assms have nz: "?a \<noteq> 0" "?b \<noteq> 0" by auto
  then have code: "sr_etalon_of cdf (Finite s) N = Finite (s * ((1 - ?y) / ?a + ?y / ?b))"
    by (simp add: sr_etalon_of_def Let_def)
  have "1 - ?y \<le> (1 - ?y) / ?a"
    using assms euler_mascheroni_y_bounds by (intro reciprocal_ge) auto
  moreover have "?y \<le> ?y / ?b"
    using assms euler_mascheroni_y_bounds by (intro reciprocal_ge) auto
  ultimately have "1 \<le> (1 - ?y) / ?a + ?y / ?b" by linarith
  with \<open>0 \<le> s\<close> have "s * 1 \<le> s * ((1 - ?y) / ?a + ?y / ?b)" by (intro mult_left_mono)
  then have ge: "s \<le> s * ((1 - ?y) / ?a + ?y / ?b)" by simp
  have spec: "spec_sr_benchmark quantile s 2 = s * (?y * quantile (1 - 1 / (2 * exp 1)))"
    if "quantile (1 / 2) = 0"
    using that by (simp add: spec_sr_benchmark_def)
  have less: "spec_sr_benchmark quantile s 2 < s"
    if "quantile (1 / 2) = 0" and "?y * quantile (1 - 1 / (2 * exp 1)) < 1" and "0 < s"
  proof -
    from that(2,3) have "s * (?y * quantile (1 - 1 / (2 * exp 1))) < s * 1"
      by (intro mult_strict_left_mono)
    with spec [OF that(1)] show ?thesis by simp
  qed
  from code ge spec less show ?thesis by blast
qed

lemma logistic_range: "0 < logistic x" "logistic x \<le> 1"
proof -
  have "0 < 1 + exp (- x)" by (simp add: add_pos_pos)
  then show "0 < logistic x" by (simp add: logistic_def)
  have "0 < 1 + exp (- x)" by (simp add: add_pos_pos)
  then show "logistic x \<le> 1" by (simp add: logistic_def divide_le_eq_1)
qed

theorem deflated_benchmark_divides_by_cdf_witness:
  "sr_etalon_of logistic (Finite 1) 2 =
     Finite (1 * ((1 - euler_mascheroni_y) / logistic (1 - 1 / real 2)
                  + euler_mascheroni_y / logistic (1 - 1 / (real 2 * exp 1)))) \<and>
   spec_sr_benchmark uniform_quantile 1 2 < 1"
proof -
  have q: "uniform_quantile (1 / 2) = 0" by (simp add: uniform_quantile_def)
  have "1 / (2 * exp 1) > (0::real)" by simp
  then have "1 - 1 / (2 * exp 1) - 1 / 2 < (1::real)" by linarith
  then have "uniform_quantile (1 - 1 / (2 * exp 1)) < 1" by (simp only: uniform_quantile_def)
  moreover have "0 < euler_mascheroni_y" "euler_mascheroni_y < 1"
    by (rule euler_mascheroni_y_bounds)+
  ultimately have p: "euler_mascheroni_y * uniform_quantile (1 - 1 / (2 * exp 1)) < 1"
    by (smt (verit) mult_less_cancel_left1 mult_le_cancel_left1)
  from deflated_benchmark_divides_by_cdf
    [of logistic 2 1 uniform_quantile, OF logistic_range logistic_range] q p
  show ?thesis by simp
qed

end
